theory Spec2Isabelle
  imports Main
begin

section \<open>Strings and the path library\<close>

text \<open>
  The bundler manipulates module paths with the \<^verbatim>\<open>path\<close> module of Node.js. That library is
  not part of the repository; it is modelled here in its POSIX variant (separator \<^verbatim>\<open>/\<close>),
  following the algorithms of Node's \<^verbatim>\<open>lib/path.js\<close>. \<^verbatim>\<open>extname\<close> and \<^verbatim>\<open>dirname\<close> are the
  library's index loops; \<^verbatim>\<open>normalizeString\<close> and \<^verbatim>\<open>relative\<close> are written over the list of
  segments between separators, which is what the library's character loops compute.
\<close>

fun split_slash :: "string \<Rightarrow> string list" where
  "split_slash [] = [[]]"
| "split_slash (c # cs) =
     (if c = CHR ''/'' then [] # split_slash cs
      else (c # hd (split_slash cs)) # tl (split_slash cs))"

fun join_slash :: "string list \<Rightarrow> string" where
  "join_slash [] = []"
| "join_slash [s] = s"
| "join_slash (s # t) = s @ ''/'' @ join_slash t"

text \<open>\<^verbatim>\<open>String.prototype.slice(a, b)\<close> for \<^verbatim>\<open>0 <= a\<close>.\<close>

definition slice :: "string \<Rightarrow> nat \<Rightarrow> nat \<Rightarrow> string" where
  "slice s a b = take (b - a) (drop a s)"

subsection \<open>path.extname\<close>

record ext_state =
  startDot :: int
  startPart :: int
  endIdx :: int
  matchedSlash :: bool
  preDotState :: int

text \<open>
  The loop \<^verbatim>\<open>for (let i = path.length - 1; i >= 0; --i)\<close>; the argument \<open>Suc i\<close> stands for
  the iteration at index \<open>i\<close>.
\<close>

fun extname_loop :: "string \<Rightarrow> nat \<Rightarrow> ext_state \<Rightarrow> ext_state" where
  "extname_loop p 0 s = s"
| "extname_loop p (Suc i) s =
     (if p ! i = CHR ''/'' then
        (if \<not> matchedSlash s then s\<lparr>startPart := int i + 1\<rparr>
         else extname_loop p i s)
      else
        (let s1 = (if endIdx s = -1 then s\<lparr>matchedSlash := False, endIdx := int i + 1\<rparr> else s);
             s2 = (if p ! i = CHR ''.'' then
                     (if startDot s1 = -1 then s1\<lparr>startDot := int i\<rparr>
                      else if preDotState s1 \<noteq> 1 then s1\<lparr>preDotState := 1\<rparr>
                      else s1)
                   else if startDot s1 \<noteq> -1 then s1\<lparr>preDotState := -1\<rparr>
                   else s1)
         in extname_loop p i s2))"

definition path_extname :: "string \<Rightarrow> string" where
  "path_extname p =
     (let s = extname_loop p (length p)
                \<lparr>startDot = -1, startPart = 0, endIdx = -1, matchedSlash = True, preDotState = 0\<rparr>
      in if startDot s = -1 \<or> endIdx s = -1 \<or> preDotState s = 0 \<or>
            (preDotState s = 1 \<and> startDot s = endIdx s - 1 \<and> startDot s = startPart s + 1)
         then []
         else slice p (nat (startDot s)) (nat (endIdx s)))"

subsection \<open>path.normalize and path.join\<close>

text \<open>
  One separator-delimited segment of \<^verbatim>\<open>normalizeString\<close>: empty and \<^verbatim>\<open>.\<close> segments are dropped,
  \<^verbatim>\<open>..\<close> removes the last kept segment unless there is none or it is \<^verbatim>\<open>..\<close> itself (then it is
  kept when \<open>allowAboveRoot\<close>), any other segment is appended.
\<close>

definition norm_step :: "bool \<Rightarrow> string list \<Rightarrow> string \<Rightarrow> string list" where
  "norm_step allowAboveRoot res seg =
     (if seg = [] \<or> seg = ''.'' then res
      else if seg = ''..'' then
        (if res \<noteq> [] \<and> last res \<noteq> ''..'' then butlast res
         else if allowAboveRoot then res @ [''..'']
         else res)
      else res @ [seg])"

definition normalizeString :: "string \<Rightarrow> bool \<Rightarrow> string" where
  "normalizeString p allowAboveRoot =
     join_slash (foldl (norm_step allowAboveRoot) [] (split_slash p))"

definition path_normalize :: "string \<Rightarrow> string" where
  "path_normalize p =
     (if p = [] then ''.''
      else
        (let isAbsolute = (hd p = CHR ''/'');
             trailingSeparator = (last p = CHR ''/'');
             r = normalizeString p (\<not> isAbsolute)
         in if r = [] then (if isAbsolute then ''/'' else if trailingSeparator then ''./'' else ''.'')
            else (if isAbsolute then ''/'' else []) @ r @ (if trailingSeparator then ''/'' else [])))"

definition path_join :: "string list \<Rightarrow> string" where
  "path_join args =
     (let parts = filter (\<lambda>a. a \<noteq> []) args
      in if parts = [] then ''.'' else path_normalize (join_slash parts))"

subsection \<open>path.dirname\<close>

text \<open>
  The loop \<^verbatim>\<open>for (let i = path.length - 1; i >= 1; --i)\<close>, returning \<open>end\<close> (\<open>None\<close> for
  \<^verbatim>\<open>-1\<close>); the argument \<open>Suc i\<close> stands for the iteration at index \<open>i\<close>.
\<close>

fun dirname_loop :: "string \<Rightarrow> nat \<Rightarrow> bool \<Rightarrow> nat option" where
  "dirname_loop p 0 matched = None"
| "dirname_loop p (Suc i) matched =
     (if i < 1 then None
      else if p ! i = CHR ''/'' then (if \<not> matched then Some i else dirname_loop p i matched)
      else dirname_loop p i False)"

definition path_dirname :: "string \<Rightarrow> string" where
  "path_dirname p =
     (if p = [] then ''.''
      else
        (let hasRoot = (hd p = CHR ''/'')
         in case dirname_loop p (length p) True of
              None \<Rightarrow> (if hasRoot then ''/'' else ''.'')
            | Some e \<Rightarrow> (if hasRoot \<and> e = 1 then ''//'' else slice p 0 e)))"

subsection \<open>path.resolve and path.relative\<close>

text \<open>
  \<^verbatim>\<open>resolve\<close> walks its arguments from the last to the first and then the current working
  directory, until the accumulated path is absolute.
\<close>

fun resolve_loop :: "string list \<Rightarrow> string \<Rightarrow> string \<times> bool" where
  "resolve_loop [] resolvedPath = (resolvedPath, False)"
| "resolve_loop (p # ps) resolvedPath =
     (if p = [] then resolve_loop ps resolvedPath
      else if hd p = CHR ''/'' then (p @ ''/'' @ resolvedPath, True)
      else resolve_loop ps (p @ ''/'' @ resolvedPath))"

definition path_resolve :: "string \<Rightarrow> string list \<Rightarrow> string" where
  "path_resolve cwd args =
     (case resolve_loop (rev args @ [cwd]) [] of
        (resolvedPath, resolvedAbsolute) \<Rightarrow>
          (let r = normalizeString resolvedPath (\<not> resolvedAbsolute)
           in if resolvedAbsolute then ''/'' @ r
              else if r \<noteq> [] then r else ''.''))"

fun strip_common :: "string list \<Rightarrow> string list \<Rightarrow> string list \<times> string list" where
  "strip_common (a # as) (b # bs) = (if a = b then strip_common as bs else (a # as, b # bs))"
| "strip_common as bs = (as, bs)"

definition segments :: "string \<Rightarrow> string list" where
  "segments p = filter (\<lambda>s. s \<noteq> []) (split_slash p)"

definition path_relative :: "string \<Rightarrow> string \<Rightarrow> string \<Rightarrow> string" where
  "path_relative cwd from to =
     (if from = to then []
      else
        (let f = path_resolve cwd [from]; t = path_resolve cwd [to]
         in if f = t then []
            else (case strip_common (segments f) (segments t) of
                    (fs, ts) \<Rightarrow> join_slash (replicate (length fs) ''..'' @ ts))))"

section \<open>Module names\<close>

text \<open>\<^verbatim>\<open>path.replace(/\\/g, "/")\<close>: every backslash becomes a forward slash.\<close>

definition replace_backslashes :: "string \<Rightarrow> string" where
  "replace_backslashes s = map (\<lambda>c. if c = CHR 0x5C then CHR ''/'' else c) s"

text \<open>
  \<^verbatim>\<open>normalizePath\<close>: \<^verbatim>\<open>a && b\<close> is \<open>a\<close> when \<open>a\<close> is falsy (the empty string) and \<open>b\<close> otherwise.
\<close>

definition normalizePath :: "string \<Rightarrow> string" where
  "normalizePath path =
     (let p = (if replace_backslashes path = [] then replace_backslashes path
               else replace_backslashes path)
      in ''./'' @ p)"

definition normalizeModuleName :: "string \<Rightarrow> string \<Rightarrow> string" where
  "normalizeModuleName moduleName pPath =
     (let name = moduleName;
          name = name @ (if path_extname name \<noteq> [] then [] else ''.js'');
          name = normalizePath (path_join [pPath, name])
      in name)"

section \<open>Syntax trees and the rewrite of \<^verbatim>\<open>require\<close> calls\<close>

text \<open>
  The parser (\<^verbatim>\<open>babylon\<close>), the tree walker (\<^verbatim>\<open>@babel/traverse\<close>) and the printer
  (\<^verbatim>\<open>@babel/generator\<close>) are libraries. A syntax tree keeps what \<^verbatim>\<open>parse\<close> looks at:
  identifiers, string literals and call expressions; every other node is \<open>Other\<close>, carrying
  its kind (with its non-node data) and its child nodes in the order the walker visits them.
\<close>

datatype node =
    Identifier string
  | StringLiteral string
  | CallExpression node "node list"
  | Other string "node list"

datatype error = SyntaxError | TypeError | IOError | LoaderError

text \<open>\<^verbatim>\<open>node.callee.name\<close>: only an identifier has a name, for any other callee it is undefined.\<close>

fun callee_name :: "node \<Rightarrow> string option" where
  "callee_name (Identifier n) = Some n"
| "callee_name _ = None"

text \<open>
  The walker calls the \<^verbatim>\<open>CallExpression\<close> visitor when it enters a call, before it walks
  the call's children (callee first, then the arguments from left to right). For a call
  of \<^verbatim>\<open>require\<close> the visitor renames the callee, reads \<^verbatim>\<open>node.arguments[0].value\<close>, pushes the
  normalized name on \<open>dependencies\<close> and replaces the whole argument list by one string
  literal. When there is no first argument, reading \<^verbatim>\<open>.value\<close> of \<^verbatim>\<open>undefined\<close> throws; when
  the first argument is no string literal its \<^verbatim>\<open>value\<close> is not a string and \<^verbatim>\<open>path.extname\<close>
  throws: both are a \<open>TypeError\<close>. The children the walker then finds under a rewritten
  call are an identifier and a string literal, where the visitor has nothing to do.
\<close>

fun traverse :: "string \<Rightarrow> node \<Rightarrow> string list \<Rightarrow> error + (node \<times> string list)"
  and traverse_list :: "string \<Rightarrow> node list \<Rightarrow> string list \<Rightarrow> error + (node list \<times> string list)"
where
  "traverse parentPath (CallExpression callee arguments) dependencies =
     (if callee_name callee = Some ''require'' then
        (case arguments of
           StringLiteral v # _ \<Rightarrow>
             (let moduleName = normalizeModuleName v parentPath
              in Inr (CallExpression (Identifier ''__webpack_require__'') [StringLiteral moduleName],
                      dependencies @ [moduleName]))
         | _ \<Rightarrow> Inl TypeError)
      else
        (case traverse parentPath callee dependencies of
           Inl e \<Rightarrow> Inl e
         | Inr (callee', deps1) \<Rightarrow>
             (case traverse_list parentPath arguments deps1 of
                Inl e \<Rightarrow> Inl e
              | Inr (arguments', deps2) \<Rightarrow> Inr (CallExpression callee' arguments', deps2))))"
| "traverse parentPath (Other kind children) dependencies =
     (case traverse_list parentPath children dependencies of
        Inl e \<Rightarrow> Inl e
      | Inr (children', deps1) \<Rightarrow> Inr (Other kind children', deps1))"
| "traverse parentPath (Identifier n) dependencies = Inr (Identifier n, dependencies)"
| "traverse parentPath (StringLiteral v) dependencies = Inr (StringLiteral v, dependencies)"
| "traverse_list parentPath [] dependencies = Inr ([], dependencies)"
| "traverse_list parentPath (n # ns) dependencies =
     (case traverse parentPath n dependencies of
        Inl e \<Rightarrow> Inl e
      | Inr (n', deps1) \<Rightarrow>
          (case traverse_list parentPath ns deps1 of
             Inl e \<Rightarrow> Inl e
           | Inr (ns', deps2) \<Rightarrow> Inr (n' # ns', deps2)))"

text \<open>
  The world outside the compiler: the files on disk (\<^verbatim>\<open>fs.readFileSync\<close>), the parser, which
  may reject a text, and the printer.
\<close>

record world =
  files :: "(string \<times> string) list"
  babylon_parse :: "string \<Rightarrow> error + node"
  generator :: "node \<Rightarrow> string"

definition parse :: "world \<Rightarrow> string \<Rightarrow> string \<Rightarrow> error + (string \<times> string list)" where
  "parse w source parentPath =
     (case babylon_parse w source of
        Inl e \<Rightarrow> Inl e
      | Inr ast \<Rightarrow>
          (case traverse parentPath ast [] of
             Inl e \<Rightarrow> Inl e
           | Inr (ast', dependencies) \<Rightarrow> Inr (generator w ast', dependencies)))"

subsection \<open>Positions in a tree and the walk of the visitor\<close>

text \<open>
  A position is the list of child indices from the root: in a call, child \<open>0\<close> is the callee
  and child \<open>i + 1\<close> is argument \<open>i\<close>.
\<close>

fun children_of :: "node \<Rightarrow> node list" where
  "children_of (CallExpression callee arguments) = callee # arguments"
| "children_of (Other kind children) = children"
| "children_of _ = []"

fun subnode :: "node \<Rightarrow> nat list \<Rightarrow> node option" where
  "subnode n [] = Some n"
| "subnode n (i # pos) =
     (if i < length (children_of n) then subnode (children_of n ! i) pos else None)"

definition is_require_call :: "node \<Rightarrow> bool" where
  "is_require_call n =
     (case n of CallExpression callee arguments \<Rightarrow> callee_name callee = Some ''require''
      | _ \<Rightarrow> False)"

text \<open>
  A position is reached by the visitor when no node strictly above it is a call of
  \<^verbatim>\<open>require\<close>: below such a call the original children are replaced before they are walked.
\<close>

fun reached :: "node \<Rightarrow> nat list \<Rightarrow> bool" where
  "reached n [] = True"
| "reached n (i # pos) =
     (\<not> is_require_call n \<and> i < length (children_of n) \<and> reached (children_of n ! i) pos)"

text \<open>
  The nodes the walker enters, in the order it enters them: a node before its children,
  the children from left to right, and nothing below a call of \<^verbatim>\<open>require\<close>.
\<close>

fun walk :: "node \<Rightarrow> node list"
  and walk_list :: "node list \<Rightarrow> node list"
where
  "walk (CallExpression callee arguments) =
     CallExpression callee arguments #
       (if callee_name callee = Some ''require'' then []
        else walk callee @ walk_list arguments)"
| "walk (Other kind children) = Other kind children # walk_list children"
| "walk (Identifier n) = [Identifier n]"
| "walk (StringLiteral v) = [StringLiteral v]"
| "walk_list [] = []"
| "walk_list (n # ns) = walk n @ walk_list ns"

text \<open>The name a call of \<^verbatim>\<open>require\<close> with a string literal as first argument asks for.\<close>

fun require_target :: "node \<Rightarrow> string option" where
  "require_target (CallExpression callee (StringLiteral v # rest)) =
     (if callee_name callee = Some ''require'' then Some v else None)"
| "require_target _ = None"

text \<open>
  The canonical ids of the calls of \<^verbatim>\<open>require\<close> among a list of nodes, in the order of the
  list and with repetitions.
\<close>

definition canonical_ids :: "string \<Rightarrow> node list \<Rightarrow> string list" where
  "canonical_ids parentPath ns =
     map (\<lambda>v. normalizeModuleName v parentPath) (List.map_filter require_target ns)"

text \<open>
  The pre-order of the whole syntax tree, as the specification words the order of the
  dependency list: every node before its children, the children from left to right, with
  nothing left out.
\<close>

fun preorder :: "node \<Rightarrow> node list"
  and preorder_list :: "node list \<Rightarrow> node list"
where
  "preorder (CallExpression callee arguments) =
     CallExpression callee arguments # (preorder callee @ preorder_list arguments)"
| "preorder (Other kind children) = Other kind children # preorder_list children"
| "preorder (Identifier n) = [Identifier n]"
| "preorder (StringLiteral v) = [StringLiteral v]"
| "preorder_list [] = []"
| "preorder_list (n # ns) = preorder n @ preorder_list ns"

section \<open>The compiler\<close>

subsection \<open>Configuration and state\<close>

text \<open>
  A loader is a function from source text to source text that may throw; \<^verbatim>\<open>require(use[k])\<close>
  of a module that cannot be loaded is a loader that throws on every content. A rule's
  \<^verbatim>\<open>test\<close> is a regular expression, used only through \<^verbatim>\<open>test.test(path)\<close>: a predicate on paths.
  Plugins and hooks are outside the model.
\<close>

type_synonym loader = "string \<Rightarrow> error + string"

record rule =
  test :: "string \<Rightarrow> bool"
  use :: "loader list"

record options =
  cfg_entry :: string
  cfg_module :: "rule list option"
  cfg_output_path :: string
  cfg_output_filename :: string

text \<open>
  The fields of a \<^verbatim>\<open>Compiler\<close>. The objects \<^verbatim>\<open>modules\<close> and \<^verbatim>\<open>assets\<close> are lists of key-value
  pairs in insertion order, the order \<^verbatim>\<open>Object.keys\<close> returns for keys that are not array
  indices.
\<close>

record compiler =
  config :: options
  entryId :: "string option"
  root :: string
  modules :: "(string \<times> string) list"
  entry :: string
  assets :: "(string \<times> string) list"

text \<open>\<^verbatim>\<open>obj[key] = value\<close>: an existing key keeps its place, a new key goes last.\<close>

fun obj_set :: "string \<Rightarrow> 'a \<Rightarrow> (string \<times> 'a) list \<Rightarrow> (string \<times> 'a) list" where
  "obj_set key v [] = [(key, v)]"
| "obj_set key v ((k, x) # rest) =
     (if k = key then (k, v) # rest else (k, x) # obj_set key v rest)"

text \<open>The constructor, with \<open>cwd\<close> for \<^verbatim>\<open>process.cwd()\<close>.\<close>

definition new_compiler :: "options \<Rightarrow> string \<Rightarrow> compiler" where
  "new_compiler cfg cwd =
     \<lparr>config = cfg, entryId = None, root = cwd, modules = [], entry = cfg_entry cfg, assets = []\<rparr>"

subsection \<open>readSource\<close>

text \<open>
  The inner function \<^verbatim>\<open>loader\<close> of \<^verbatim>\<open>readSource\<close>, with the variables \<open>len\<close> and \<open>content\<close> it
  closes over. It is called before \<open>len\<close> is compared with zero: for an index outside the
  array, \<^verbatim>\<open>use[len]\<close> is undefined and \<^verbatim>\<open>require(undefined)\<close> throws a \<open>TypeError\<close>.
\<close>

function loader_fn :: "loader list \<Rightarrow> int \<Rightarrow> string \<Rightarrow> error + string" where
  "loader_fn use_list len content =
     (if len < 0 \<or> int (length use_list) \<le> len then Inl TypeError
      else
        (case (use_list ! nat len) content of
           Inl e \<Rightarrow> Inl e
         | Inr content' \<Rightarrow>
             (if len - 1 \<ge> 0 then loader_fn use_list (len - 1) content' else Inr content')))"
  by pat_completeness auto
termination
  by (relation "measure (\<lambda>(u, len, c). nat (len + 1))") auto

fun apply_rules :: "rule list \<Rightarrow> string \<Rightarrow> string \<Rightarrow> error + string" where
  "apply_rules [] path content = Inr content"
| "apply_rules (r # rules) path content =
     (if test r path then
        (case loader_fn (use r) (int (length (use r)) - 1) content of
           Inl e \<Rightarrow> Inl e
         | Inr content' \<Rightarrow> apply_rules rules path content')
      else apply_rules rules path content)"

definition readSource :: "world \<Rightarrow> options \<Rightarrow> string \<Rightarrow> error + string" where
  "readSource w cfg path =
     (case map_of (files w) path of
        None \<Rightarrow> Inl IOError
      | Some content \<Rightarrow>
          (case cfg_module cfg of
             None \<Rightarrow> Inr content
           | Some rules \<Rightarrow> apply_rules rules path content))"

text \<open>
  What the specification says of a transform chain: its functions are applied from the
  last entry toward the first, each to the output of the one before; a function that
  throws ends the chain with its error.
\<close>

definition chain_from_last :: "loader list \<Rightarrow> string \<Rightarrow> error + string" where
  "chain_from_last chain content =
     fold (\<lambda>f r. case r of Inl e \<Rightarrow> Inl e | Inr c \<Rightarrow> f c) (rev chain) (Inr content)"

subsection \<open>buildModule\<close>

text \<open>
  \<^verbatim>\<open>buildModule\<close> calls itself for every dependency and has no bound of its own, so the model
  takes fuel: the depth of recursion it may use. \<open>None\<close> says that the depth did not
  suffice, \<open>Some (Inl e)\<close> that an exception \<open>e\<close> ended the build, \<open>Some (Inr c)\<close> that the
  call returned with the compiler in state \<open>c\<close>. \<open>buildDeps\<close> is the
  \<^verbatim>\<open>dependencies.forEach\<close> at the end of \<^verbatim>\<open>buildModule\<close>.
\<close>

fun buildModule :: "nat \<Rightarrow> world \<Rightarrow> string \<Rightarrow> bool \<Rightarrow> compiler \<Rightarrow> (error + compiler) option"
  and buildDeps :: "nat \<Rightarrow> world \<Rightarrow> string list \<Rightarrow> compiler \<Rightarrow> (error + compiler) option"
where
  "buildModule 0 w modulePath isEntry c = None"
| "buildModule (Suc fuel) w modulePath isEntry c =
     (case readSource w (config c) modulePath of
        Inl e \<Rightarrow> Some (Inl e)
      | Inr source \<Rightarrow>
          (let moduleName = normalizePath (path_relative (root c) (root c) modulePath);
               c1 = (if isEntry then c\<lparr>entryId := Some moduleName\<rparr> else c)
           in case parse w source (path_dirname moduleName) of
                Inl e \<Rightarrow> Some (Inl e)
              | Inr (sourceCode, dependencies) \<Rightarrow>
                  buildDeps fuel w dependencies
                    (c1\<lparr>modules := obj_set moduleName sourceCode (modules c1)\<rparr>)))"
| "buildDeps fuel w [] c = Some (Inr c)"
| "buildDeps fuel w (dep # deps) c =
     (case buildModule fuel w (path_join [root c, dep]) False c of
        None \<Rightarrow> None
      | Some (Inl e) \<Rightarrow> Some (Inl e)
      | Some (Inr c') \<Rightarrow> buildDeps fuel w deps c')"

subsection \<open>The module-reference relation\<close>

text \<open>The id \<^verbatim>\<open>buildModule\<close> gives the module at an absolute path.\<close>

definition module_id :: "string \<Rightarrow> string \<Rightarrow> string" where
  "module_id rt modulePath = normalizePath (path_relative rt rt modulePath)"

text \<open>
  The absolute paths \<^verbatim>\<open>buildModule\<close> calls itself with when it is called with
  \<open>modulePath\<close>: none when the module cannot be read or parsed.
\<close>

definition references :: "world \<Rightarrow> options \<Rightarrow> string \<Rightarrow> string \<Rightarrow> string list" where
  "references w cfg rt modulePath =
     (case readSource w cfg modulePath of
        Inl e \<Rightarrow> []
      | Inr source \<Rightarrow>
          (case parse w source (path_dirname (module_id rt modulePath)) of
             Inl e \<Rightarrow> []
           | Inr (sourceCode, dependencies) \<Rightarrow> map (\<lambda>dep. path_join [rt, dep]) dependencies))"

definition reference_rel :: "world \<Rightarrow> options \<Rightarrow> string \<Rightarrow> (string \<times> string) set" where
  "reference_rel w cfg rt = {(p, q). q \<in> set (references w cfg rt p)}"


subsection \<open>The emitted bundle\<close>

text \<open>
  One entry of \<^verbatim>\<open>gTemplate\<close>: the text pushed for \<open>key\<close>. The third parameter of the factory
  is named only when \<open>key\<close> is the entry id.
\<close>

definition factory_text :: "string \<Rightarrow> bool \<Rightarrow> string \<Rightarrow> string" where
  "factory_text key is_entry source =
     [CHR 0x22] @ key @ [CHR 0x22] @ '': function (module, exports, '' @
     (if is_entry then ''__webpack_require__'' else []) @
     '') {'' @ [CHR 0x0A] @
     ''          eval('' @ [CHR 0x60] @ source @ [CHR 0x60] @ '');'' @ [CHR 0x0A] @
     ''        },''"

text \<open>\<^verbatim>\<open>this.modules[key]\<close> in a template literal; an absent key prints as \<^verbatim>\<open>undefined\<close>.\<close>

definition module_source :: "compiler \<Rightarrow> string \<Rightarrow> string" where
  "module_source c key = (case map_of (modules c) key of None \<Rightarrow> ''undefined'' | Some s \<Rightarrow> s)"

definition gTemplate :: "compiler \<Rightarrow> string" where
  "gTemplate c =
     (let keys = map fst (modules c);
          arr = fold (\<lambda>key arr. arr @ [factory_text key (Some key = entryId c) (module_source c key)])
                  keys []
      in concat arr)"

definition loader_text :: "string list" where
  "loader_text =
    [''(function (modules) {'',
     ''      var installedModules = {};'',
     ''    '',
     ''      function __webpack_require__(moduleId) {'',
     ''        if (installedModules[moduleId]) {'',
     ''          return installedModules[moduleId].exports;'',
     ''        }'',
     ''        var module = (installedModules[moduleId] = {'',
     ''          i: moduleId,'',
     ''          l: false,'',
     ''          exports: {},'',
     ''        });'',
     ''    '',
     ''        modules[moduleId].call('',
     ''          module.exports,'',
     ''          module,'',
     ''          module.exports,'',
     ''          __webpack_require__'',
     ''        );'',
     ''    '',
     ''        module.l = true;'',
     ''    '',
     ''        return module.exports;'',
     ''      }'',
     ''    '']"

definition unlines :: "string list \<Rightarrow> string" where
  "unlines ls = concat (map (\<lambda>l. l @ [CHR 0x0A]) ls)"

text \<open>The template literal of \<^verbatim>\<open>emitFile\<close>; an entry id never set prints as \<^verbatim>\<open>undefined\<close>.\<close>

definition bootstrap_id :: "compiler \<Rightarrow> string" where
  "bootstrap_id c = (case entryId c of None \<Rightarrow> ''undefined'' | Some e \<Rightarrow> e)"

definition template :: "compiler \<Rightarrow> string" where
  "template c =
     unlines loader_text @
     ''      return __webpack_require__((__webpack_require__.s = '' @
       [CHR 0x22] @ bootstrap_id c @ [CHR 0x22] @ ''));'' @ [CHR 0x0A] @
     ''    })({'' @ [CHR 0x0A] @
     ''      '' @ gTemplate c @ [CHR 0x0A] @
     ''    });'' @ [CHR 0x0A] @
     ''    ''"

text \<open>
  \<^verbatim>\<open>emitFile\<close> records the bundle in \<^verbatim>\<open>assets\<close> under the output file's path and writes it to
  that file. The removal and creation of the output directory are not modelled.
\<close>

definition emitFile :: "compiler \<Rightarrow> compiler" where
  "emitFile c =
     (let main = path_join [cfg_output_path (config c), cfg_output_filename (config c)]
      in c\<lparr>assets := obj_set main (template c) (assets c)\<rparr>)"

definition run :: "nat \<Rightarrow> world \<Rightarrow> compiler \<Rightarrow> (error + compiler) option" where
  "run fuel w c =
     (case buildModule fuel w (path_resolve (root c) [root c, entry c]) True c of
        None \<Rightarrow> None
      | Some (Inl e) \<Rightarrow> Some (Inl e)
      | Some (Inr c') \<Rightarrow> Some (Inr (emitFile c')))"

section \<open>The loader of the emitted bundle\<close>

text \<open>
  The bundle's text holds a loader, \<^verbatim>\<open>__webpack_require__\<close>, and one factory per module. What a
  factory does is the module's own code; the loader sees it only through the calls it
  makes. A factory body is therefore a tree of such steps: it returns, it throws, it
  gives \<^verbatim>\<open>module.exports\<close> a value and goes on, or it calls \<^verbatim>\<open>__webpack_require__\<close> with an id
  and goes on with the value it gets back. In a factory whose third parameter is not
  named, \<^verbatim>\<open>__webpack_require__\<close> is not in scope and the call throws a ReferenceError.
\<close>

datatype 'v body =
    Done
  | Throw
  | SetExports 'v "'v body"
  | Require string "'v \<Rightarrow> 'v body"

text \<open>The record \<^verbatim>\<open>{ i: moduleId, l: false, exports: {} }\<close>.\<close>

record 'v module_record =
  mod_i :: string
  mod_l :: bool
  mod_exports :: 'v

text \<open>
  The state of one evaluation of the bundle: the loader's \<^verbatim>\<open>installedModules\<close>, and the ids
  whose factory has been called, in the order of the calls.
\<close>

record 'v runtime =
  installedModules :: "string \<rightharpoonup> 'v module_record"
  executed :: "string list"

datatype 'v outcome = Returned 'v | Thrown | Exhausted

text \<open>
  A factory of the object passed to the bundle's outer function: whether its third parameter
  is named, and its body.
\<close>

type_synonym 'v factories = "string \<rightharpoonup> (bool \<times> 'v body)"

text \<open>
  The loader and the run of a factory body, with fuel for the number of nested steps;
  \<open>empty_obj\<close> is the value \<^verbatim>\<open>{}\<close>. \<^verbatim>\<open>modules[moduleId].call\<close> throws when the bundle has no
  factory for the id; by then the record is installed.
\<close>

fun webpack_require ::
    "nat \<Rightarrow> 'v \<Rightarrow> 'v factories \<Rightarrow> string \<Rightarrow> 'v runtime \<Rightarrow> 'v runtime \<times> 'v outcome"
  and run_body ::
    "nat \<Rightarrow> 'v \<Rightarrow> 'v factories \<Rightarrow> string \<Rightarrow> bool \<Rightarrow> 'v body \<Rightarrow> 'v runtime \<Rightarrow> 'v runtime \<times> 'v outcome"
where
  "webpack_require 0 empty_obj fs moduleId rt = (rt, Exhausted)"
| "webpack_require (Suc fuel) empty_obj fs moduleId rt =
     (case installedModules rt moduleId of
        Some m \<Rightarrow> (rt, Returned (mod_exports m))
      | None \<Rightarrow>
          (let module = \<lparr>mod_i = moduleId, mod_l = False, mod_exports = empty_obj\<rparr>;
               rt1 = rt\<lparr>installedModules := (installedModules rt)(moduleId \<mapsto> module)\<rparr>
           in case fs moduleId of
                None \<Rightarrow> (rt1, Thrown)
              | Some (bound, b) \<Rightarrow>
                  (case run_body fuel empty_obj fs moduleId bound b
                          (rt1\<lparr>executed := executed rt1 @ [moduleId]\<rparr>) of
                     (rt2, Returned _) \<Rightarrow>
                       (let module2 = (case installedModules rt2 moduleId of
                                         Some m \<Rightarrow> m | None \<Rightarrow> module);
                            module3 = module2\<lparr>mod_l := True\<rparr>
                        in (rt2\<lparr>installedModules := (installedModules rt2)(moduleId \<mapsto> module3)\<rparr>,
                            Returned (mod_exports module3)))
                   | (rt2, out) \<Rightarrow> (rt2, out))))"
| "run_body 0 empty_obj fs self bound b rt = (rt, Exhausted)"
| "run_body (Suc fuel) empty_obj fs self bound Done rt = (rt, Returned empty_obj)"
| "run_body (Suc fuel) empty_obj fs self bound Throw rt = (rt, Thrown)"
| "run_body (Suc fuel) empty_obj fs self bound (SetExports v b) rt =
     run_body fuel empty_obj fs self bound b
       (rt\<lparr>installedModules :=
            (case installedModules rt self of
               None \<Rightarrow> installedModules rt
             | Some m \<Rightarrow> (installedModules rt)(self \<mapsto> m\<lparr>mod_exports := v\<rparr>))\<rparr>)"
| "run_body (Suc fuel) empty_obj fs self bound (Require moduleId k) rt =
     (if \<not> bound then (rt, Thrown)
      else
        (case webpack_require fuel empty_obj fs moduleId rt of
           (rt1, Returned v) \<Rightarrow> run_body fuel empty_obj fs self bound (k v) rt1
         | (rt1, out) \<Rightarrow> (rt1, out)))"

definition fresh_runtime :: "'v runtime" where
  "fresh_runtime = \<lparr>installedModules = Map.empty, executed = []\<rparr>"

section \<open>Predicates of the proofs\<close>


text \<open>What a build never changes.\<close>

definition frame :: "compiler \<Rightarrow> compiler \<Rightarrow> bool" where
  "frame c c' \<longleftrightarrow>
     config c' = config c \<and> root c' = root c \<and> entry c' = entry c \<and> assets c' = assets c"

text \<open>The keys of the module graph only grow, and stay without repetition.\<close>

definition keys_ok :: "compiler \<Rightarrow> compiler \<Rightarrow> bool" where
  "keys_ok c c' \<longleftrightarrow>
     fst ` set (modules c) \<subseteq> fst ` set (modules c') \<and>
     (distinct (map fst (modules c)) \<longrightarrow> distinct (map fst (modules c')))"

text \<open>
  No factory has been called twice, and every module whose factory has been called is
  installed.
\<close>

definition once :: "'v runtime \<Rightarrow> bool" where
  "once rt \<longleftrightarrow> distinct (executed rt) \<and> set (executed rt) \<subseteq> dom (installedModules rt)"

definition grows :: "'v runtime \<Rightarrow> 'v runtime \<Rightarrow> bool" where
  "grows rt rt' \<longleftrightarrow>
     dom (installedModules rt) \<subseteq> dom (installedModules rt') \<and>
     set (executed rt) \<subseteq> set (executed rt') \<and>
     (once rt \<longrightarrow> once rt')"

text \<open>A build that returned normally.\<close>

definition succeeded :: "(error + compiler) option \<Rightarrow> bool" where
  "succeeded r = (case r of Some (Inr c) \<Rightarrow> True | _ \<Rightarrow> False)"

section \<open>Sample inputs\<close>

text \<open>
  A parser given by a table from source texts to trees, and a printer for the trees of
  the samples.
\<close>

definition table_parser :: "(string \<times> node) list \<Rightarrow> string \<Rightarrow> error + node" where
  "table_parser table source =
     (case map_of table source of None \<Rightarrow> Inl SyntaxError | Some ast \<Rightarrow> Inr ast)"

fun print_node :: "node \<Rightarrow> string" where
  "print_node (Identifier n) = n"
| "print_node (StringLiteral v) = [CHR 0x22] @ v @ [CHR 0x22]"
| "print_node (CallExpression f args) =
     print_node f @ ''('' @ join_slash (map print_node args) @ '')''"
| "print_node (Other kind children) =
     concat (map print_node children) @ (if kind = ''ExpressionStatement'' then '';'' else [])"

definition js_require :: "string \<Rightarrow> string" where
  "js_require name = ''require('' @ [CHR 0x22] @ name @ [CHR 0x22] @ '');''"

definition require_stmt :: "string \<Rightarrow> node" where
  "require_stmt name =
     Other ''ExpressionStatement'' [CallExpression (Identifier ''require'') [StringLiteral name]]"

definition program :: "node list \<Rightarrow> node" where
  "program stmts = Other ''Program'' stmts"

text \<open>The text \<^verbatim>\<open>require("./a", require("./b"));\<close> and its tree.\<close>

definition nested_source :: string where
  "nested_source =
     ''require('' @ [CHR 0x22] @ ''./a'' @ [CHR 0x22] @ '', require('' @
       [CHR 0x22] @ ''./b'' @ [CHR 0x22] @ ''));''"

definition nested_ast :: node where
  "nested_ast =
     program [Other ''ExpressionStatement''
       [CallExpression (Identifier ''require'')
          [StringLiteral ''./a'',
           CallExpression (Identifier ''require'') [StringLiteral ''./b'']]]]"

text \<open>The text \<^verbatim>\<open>require("./a", require("./a"));\<close> and its tree.\<close>

definition twice_source :: string where
  "twice_source =
     ''require('' @ [CHR 0x22] @ ''./a'' @ [CHR 0x22] @ '', require('' @
       [CHR 0x22] @ ''./a'' @ [CHR 0x22] @ ''));''"

definition twice_ast :: node where
  "twice_ast =
     program [Other ''ExpressionStatement''
       [CallExpression (Identifier ''require'')
          [StringLiteral ''./a'',
           CallExpression (Identifier ''require'') [StringLiteral ''./a'']]]]"

definition sample_table :: "(string \<times> node) list" where
  "sample_table =
     [(js_require ''./a'' @ js_require ''./a'' @ js_require ''./lib/b'',
         program [require_stmt ''./a'', require_stmt ''./a'', require_stmt ''./lib/b'']),
      (js_require ''../a'', program [require_stmt ''../a'']),
      (js_require ''./a'', program [require_stmt ''./a'']),
      (js_require ''./b'', program [require_stmt ''./b'']),
      (js_require ''./missing'' @ js_require ''./a'',
         program [require_stmt ''./missing'', require_stmt ''./a'']),
      (js_require ''../../x'', program [require_stmt ''../../x'']),
      (nested_source, nested_ast),
      (twice_source, twice_ast),
      ([], program [])]"

definition sample_world_of :: "(string \<times> string) list \<Rightarrow> world" where
  "sample_world_of fs =
     \<lparr>files = fs, babylon_parse = table_parser sample_table, generator = print_node\<rparr>"

definition sample_options :: "string \<Rightarrow> options" where
  "sample_options e =
     \<lparr>cfg_entry = e, cfg_module = None, cfg_output_path = ''dist'',
      cfg_output_filename = ''main.js''\<rparr>"

text \<open>
  A project in \<^verbatim>\<open>/proj\<close>: the entry requires \<^verbatim>\<open>./a\<close> twice and \<^verbatim>\<open>./lib/b\<close>, which requires
  \<^verbatim>\<open>../a\<close>.
\<close>

definition diamond_world :: world where
  "diamond_world = sample_world_of
     [(''/proj/src/index.js'', js_require ''./a'' @ js_require ''./a'' @ js_require ''./lib/b''),
      (''/proj/src/a.js'', []),
      (''/proj/src/lib/b.js'', js_require ''../a'')]"




text \<open>An entry whose \<^verbatim>\<open>require\<close> climbs above the root of the file system.\<close>

definition escape_world :: world where
  "escape_world = sample_world_of
     [(''/proj/index.js'', js_require ''../../x''),
      (''/x.js'', [])]"

definition nested_world :: world where
  "nested_world = sample_world_of [(''/proj/index.js'', nested_source)]"

definition twice_world :: world where
  "twice_world = sample_world_of [(''/proj/index.js'', twice_source)]"

text \<open>A rule that matches every path and has an empty chain of loaders.\<close>

definition empty_chain_options :: options where
  "empty_chain_options =
     (sample_options ''./src/index.js'')\<lparr>cfg_module := Some [\<lparr>test = (\<lambda>p. True), use = []\<rparr>]\<rparr>"

text \<open>
  Factories for the loader: \<^verbatim>\<open>./a\<close> exports \<open>1\<close>, requires \<^verbatim>\<open>./b\<close> twice and exports the sum
  of what it got plus \<open>10\<close>; \<^verbatim>\<open>./b\<close> requires \<^verbatim>\<open>./a\<close> back and exports that plus \<open>100\<close>.
\<close>

definition sample_factories :: "nat factories" where
  "sample_factories =
     [''./a'' \<mapsto> (True, SetExports 1 (Require ''./b'' (\<lambda>v. Require ''./b''
                     (\<lambda>u. SetExports (v + u + 10) Done)))),
      ''./b'' \<mapsto> (True, Require ''./a'' (\<lambda>v. SetExports (v + 100) Done))]"

section \<open>Lemmas on the rewrite\<close>

lemma map_filter_append: "List.map_filter f (xs @ ys) = List.map_filter f xs @ List.map_filter f ys"
  by (simp add: List.map_filter_def)

lemma require_target_other:
  "callee_name callee \<noteq> Some ''require'' \<Longrightarrow> require_target (CallExpression callee args) = None"
  by (cases "(CallExpression callee args)" rule: require_target.cases) auto

lemma canonical_ids_append: "canonical_ids pp (xs @ ys) = canonical_ids pp xs @ canonical_ids pp ys"
  by (simp add: canonical_ids_def map_filter_append)

lemma canonical_ids_Nil: "canonical_ids pp [] = []"
  by (simp add: canonical_ids_def List.map_filter_simps)

lemma canonical_ids_Cons:
  "canonical_ids pp (n # ns) =
     (case require_target n of None \<Rightarrow> [] | Some v \<Rightarrow> [normalizeModuleName v pp]) @ canonical_ids pp ns"
  by (simp add: canonical_ids_def List.map_filter_simps split: option.splits)

lemmas canonical_ids_simps = canonical_ids_Nil canonical_ids_Cons canonical_ids_append

lemma traverse_deps:
  "traverse pp n d = Inr (n', d') \<Longrightarrow> d' = d @ canonical_ids pp (walk n)"
  "traverse_list pp ns d = Inr (ns', d'') \<Longrightarrow> d'' = d @ canonical_ids pp (walk_list ns)"
proof (induction pp n d and pp ns d arbitrary: n' d' and ns' d'' rule: traverse_traverse_list.induct)
  case (1 parentPath callee arguments dependencies)
  show ?case
  proof (cases "callee_name callee = Some ''require''")
    case True
    with 1(3) show ?thesis
      by (auto simp: canonical_ids_simps Let_def split: list.splits node.splits)
  next
    case False
    from False 1(3) obtain callee' d1 args' where
      a: "traverse parentPath callee dependencies = Inr (callee', d1)" and
      b: "traverse_list parentPath arguments d1 = Inr (args', d')"
      by (auto split: sum.splits)
    from 1(1)[OF False a] have c: "d1 = dependencies @ canonical_ids parentPath (walk callee)" .
    from 1(2)[OF False a refl b] have "d' = d1 @ canonical_ids parentPath (walk_list arguments)" .
    with c False show ?thesis
      by (simp add: canonical_ids_simps require_target_other)
  qed
next
  case (2 parentPath kind children dependencies)
  then show ?case
    by (auto simp: canonical_ids_simps split: sum.splits)
next
  case (3 parentPath n dependencies)
  then show ?case by (auto simp: canonical_ids_simps)
next
  case (4 parentPath v dependencies)
  then show ?case by (auto simp: canonical_ids_simps)
next
  case (5 parentPath dependencies)
  then show ?case by (auto simp: canonical_ids_simps)
next
  case (6 parentPath n ns dependencies)
  from 6(3) obtain n1 d1 ns1 where
      a: "traverse parentPath n dependencies = Inr (n1, d1)" and
      b: "traverse_list parentPath ns d1 = Inr (ns1, d'')"
      by (auto split: sum.splits)
  from 6(1)[OF a] 6(2)[OF a refl b] show ?case by (simp add: canonical_ids_append)
qed


lemma traverse_mono: "traverse pp n d = Inr (n', d') \<Longrightarrow> set d \<subseteq> set d'"
  by (drule traverse_deps(1)) simp

lemma traverse_list_nth:
  "traverse_list pp ns d = Inr (ns', d') \<Longrightarrow> i < length ns \<Longrightarrow>
     length ns' = length ns \<and>
     (\<exists>di di'. traverse pp (ns ! i) di = Inr (ns' ! i, di') \<and> set di' \<subseteq> set d')"
proof (induction ns arbitrary: ns' d i)
  case Nil
  then show ?case by simp
next
  case (Cons n ns)
  from Cons.prems(1) obtain n1 d1 ns1 where
    a: "traverse pp n d = Inr (n1, d1)" and
    b: "traverse_list pp ns d1 = Inr (ns1, d')" and
    c: "ns' = n1 # ns1"
    by (auto split: sum.splits)
  from traverse_deps(2)[OF b] have mono: "set d1 \<subseteq> set d'" by simp
  have len: "length ns1 = length ns"
  proof (cases ns)
    case Nil
    with b show ?thesis by simp
  next
    case (Cons m ms)
    with Cons.IH[OF b, of 0] show ?thesis by simp
  qed
  show ?case
  proof (cases i)
    case 0
    with a c mono len show ?thesis by auto
  next
    case (Suc j)
    with Cons.prems(2) have "j < length ns" by simp
    from Cons.IH[OF b this] Suc c show ?thesis by auto
  qed
qed

lemma traverse_reached:
  "traverse pp n d = Inr (n', d') \<Longrightarrow> reached n pos \<Longrightarrow>
   subnode n pos = Some (CallExpression callee (StringLiteral v # rest)) \<Longrightarrow>
   callee_name callee = Some ''require'' \<Longrightarrow>
   subnode n' pos =
     Some (CallExpression (Identifier ''__webpack_require__'')
             [StringLiteral (normalizeModuleName v pp)]) \<and>
   normalizeModuleName v pp \<in> set d'"
proof (induction pos arbitrary: n n' d d')
  case Nil
  then show ?case by (auto simp: Let_def)
next
  case (Cons i pos)
  from Cons.prems(2) have nr: "\<not> is_require_call n" and
    i: "i < length (children_of n)" and r: "reached (children_of n ! i) pos"
    by simp_all
  from Cons.prems(3) i have s: "subnode (children_of n ! i) pos =
      Some (CallExpression callee (StringLiteral v # rest))" by simp
  have "\<exists>di di' m. traverse pp (children_of n ! i) di = Inr (m, di') \<and> set di' \<subseteq> set d' \<and>
          i < length (children_of n') \<and> children_of n' ! i = m"
  proof (cases n)
    case (Identifier x)
    with i show ?thesis by simp
  next
    case (StringLiteral x)
    with i show ?thesis by simp
  next
    case (CallExpression c args)
    with nr have ne: "callee_name c \<noteq> Some ''require''" by (simp add: is_require_call_def)
    with Cons.prems(1) CallExpression obtain c' d1 args' where
      a: "traverse pp c d = Inr (c', d1)" and
      b: "traverse_list pp args d1 = Inr (args', d')" and
      n': "n' = node.CallExpression c' args'"
      by (auto split: sum.splits)
    show ?thesis
    proof (cases i)
      case 0
      from traverse_deps(2)[OF b] have "set d1 \<subseteq> set d'" by simp
      with 0 a n' CallExpression show ?thesis by auto
    next
      case (Suc j)
      with i CallExpression have j: "j < length args" by simp
      from traverse_list_nth[OF b j] j Suc n' CallExpression show ?thesis by auto
    qed
  next
    case (Other k ch)
    with Cons.prems(1) obtain ch' where
      b: "traverse_list pp ch d = Inr (ch', d')" and n': "n' = Other k ch'"
      by (auto split: sum.splits)
    from i Other have j: "i < length ch" by simp
    from traverse_list_nth[OF b j] j n' Other show ?thesis by auto
  qed
  then obtain di di' m where
    t: "traverse pp (children_of n ! i) di = Inr (m, di')" and sub: "set di' \<subseteq> set d'" and
    i': "i < length (children_of n')" and m: "children_of n' ! i = m"
    by blast
  from Cons.IH[OF t r s Cons.prems(4)] sub i' m show ?case by auto
qed



section \<open>Lemmas on the build\<close>

lemma buildModule_Suc:
  "buildModule (Suc fuel) w p e c =
     (case readSource w (config c) p of
        Inl err \<Rightarrow> Some (Inl err)
      | Inr source \<Rightarrow>
          (case parse w source (path_dirname (module_id (root c) p)) of
             Inl err \<Rightarrow> Some (Inl err)
           | Inr (sourceCode, dependencies) \<Rightarrow>
               buildDeps fuel w dependencies
                 ((if e then c\<lparr>entryId := Some (module_id (root c) p)\<rparr> else c)
                    \<lparr>modules := obj_set (module_id (root c) p) sourceCode (modules c)\<rparr>)))"
  by (auto simp: module_id_def Let_def split: sum.splits)

declare buildModule.simps(2) [simp del]

lemma buildDeps_Cons_Inr:
  "buildDeps fuel w (dep # deps) c = Some (Inr c') \<Longrightarrow>
     \<exists>c1. buildModule fuel w (path_join [root c, dep]) False c = Some (Inr c1) \<and>
          buildDeps fuel w deps c1 = Some (Inr c')"
  by (auto split: option.splits sum.splits)

lemma buildDeps_frame_step:
  assumes "\<And>p c c'. buildModule fuel w p False c = Some (Inr c') \<Longrightarrow>
              frame c c' \<and> entryId c' = entryId c"
  shows "buildDeps fuel w deps c = Some (Inr c') \<Longrightarrow> frame c c' \<and> entryId c' = entryId c"
proof (induction deps arbitrary: c)
  case Nil
  then show ?case by (simp add: frame_def)
next
  case (Cons dep deps)
  from buildDeps_Cons_Inr[OF Cons.prems] obtain c1 where
    a: "buildModule fuel w (path_join [root c, dep]) False c = Some (Inr c1)" and
    b: "buildDeps fuel w deps c1 = Some (Inr c')" by blast
  from assms[OF a] Cons.IH[OF b] show ?case by (simp add: frame_def)
qed

lemma buildModule_frame:
  "buildModule fuel w p e c = Some (Inr c') \<Longrightarrow>
     frame c c' \<and> entryId c' = (if e then Some (module_id (root c) p) else entryId c)"
proof (induction fuel arbitrary: p e c c')
  case 0
  then show ?case by simp
next
  case (Suc fuel)
  have step: "\<And>p c c'. buildModule fuel w p False c = Some (Inr c') \<Longrightarrow>
              frame c c' \<and> entryId c' = entryId c"
    using Suc.IH by fastforce
  from Suc.prems obtain source sourceCode dependencies where
    bd: "buildDeps fuel w dependencies
           ((if e then c\<lparr>entryId := Some (module_id (root c) p)\<rparr> else c)
              \<lparr>modules := obj_set (module_id (root c) p) sourceCode (modules c)\<rparr>) = Some (Inr c')"
    unfolding buildModule_Suc by (auto split: sum.splits)
  from buildDeps_frame_step[OF step bd] show ?case by (auto simp: frame_def)
qed

lemma buildDeps_frame:
  "buildDeps fuel w deps c = Some (Inr c') \<Longrightarrow> frame c c' \<and> entryId c' = entryId c"
  using buildDeps_frame_step[of fuel w deps c c'] buildModule_frame[of fuel w _ False] by auto


subsection \<open>More fuel does not change a result\<close>





subsection \<open>Termination on an acyclic reference relation\<close>


lemma readSource_in_files:
  "readSource w cfg p = Inr source \<Longrightarrow> p \<in> fst ` set (files w)"
proof -
  assume "readSource w cfg p = Inr source"
  then have "map_of (files w) p \<noteq> None"
    by (auto simp: readSource_def split: option.splits)
  then show ?thesis by (simp add: map_of_eq_None_iff)
qed




subsection \<open>No error without a module that fails to load\<close>




subsection \<open>Divergence on a cycle\<close>




subsection \<open>Keys of the module graph\<close>

lemma obj_set_keys:
  "map fst (obj_set k v al) = (if k \<in> fst ` set al then map fst al else map fst al @ [k])"
  by (induction al) (force+)

lemma obj_set_distinct:
  "distinct (map fst al) \<Longrightarrow> distinct (map fst (obj_set k v al))"
  by (simp add: obj_set_keys)

lemma obj_set_key_set: "fst ` set (obj_set k v al) = insert k (fst ` set al)"
proof -
  have "set (map fst (obj_set k v al)) = insert k (set (map fst al))"
    unfolding obj_set_keys by auto
  then show ?thesis by simp
qed

lemma keys_ok_refl: "keys_ok c c"
  by (simp add: keys_ok_def)

lemma keys_ok_trans: "keys_ok a b \<Longrightarrow> keys_ok b c \<Longrightarrow> keys_ok a c"
  by (auto simp: keys_ok_def)

lemma buildDeps_keys_step:
  assumes "\<And>p c c'. buildModule fuel w p False c = Some (Inr c') \<Longrightarrow> keys_ok c c'"
  shows "buildDeps fuel w deps c = Some (Inr c') \<Longrightarrow> keys_ok c c'"
proof (induction deps arbitrary: c)
  case Nil
  then show ?case by (simp add: keys_ok_refl)
next
  case (Cons dep deps)
  from buildDeps_Cons_Inr[OF Cons.prems] obtain c1 where
    a: "buildModule fuel w (path_join [root c, dep]) False c = Some (Inr c1)" and
    b: "buildDeps fuel w deps c1 = Some (Inr c')" by blast
  from assms[OF a] Cons.IH[OF b] show ?case by (rule keys_ok_trans)
qed

lemma buildModule_Suc_Inr:
  assumes "buildModule (Suc fuel) w p e c = Some (Inr c')"
  obtains source sourceCode deps where
    "readSource w (config c) p = Inr source"
    "parse w source (path_dirname (module_id (root c) p)) = Inr (sourceCode, deps)"
    "buildDeps fuel w deps
       ((if e then c\<lparr>entryId := Some (module_id (root c) p)\<rparr> else c)
          \<lparr>modules := obj_set (module_id (root c) p) sourceCode (modules c)\<rparr>) = Some (Inr c')"
  using assms unfolding buildModule_Suc by (auto split: sum.splits)

lemma buildModule_keys:
  "buildModule fuel w p e c = Some (Inr c') \<Longrightarrow>
     keys_ok c c' \<and> module_id (root c) p \<in> fst ` set (modules c')"
proof (induction fuel arbitrary: p e c c')
  case 0
  then show ?case by simp
next
  case (Suc fuel)
  have step: "\<And>p c c'. buildModule fuel w p False c = Some (Inr c') \<Longrightarrow> keys_ok c c'"
    using Suc.IH by blast
  from Suc.prems obtain source sourceCode deps where
    bd: "buildDeps fuel w deps
       ((if e then c\<lparr>entryId := Some (module_id (root c) p)\<rparr> else c)
          \<lparr>modules := obj_set (module_id (root c) p) sourceCode (modules c)\<rparr>) = Some (Inr c')"
    by (rule buildModule_Suc_Inr)
  let ?c2 = "(if e then c\<lparr>entryId := Some (module_id (root c) p)\<rparr> else c)
          \<lparr>modules := obj_set (module_id (root c) p) sourceCode (modules c)\<rparr>"
  have k2: "keys_ok ?c2 c'" by (rule buildDeps_keys_step) (rule step, assumption, rule bd)
  have k1: "keys_ok c ?c2 \<and> module_id (root c) p \<in> fst ` set (modules ?c2)"
    by (auto simp: keys_ok_def obj_set_key_set obj_set_distinct)
  from k1 k2 show ?case by (auto simp: keys_ok_def)
qed

lemma buildDeps_keys:
  "buildDeps fuel w deps c = Some (Inr c') \<Longrightarrow> keys_ok c c'"
  by (rule buildDeps_keys_step) (drule buildModule_keys, simp, assumption)

subsection \<open>Every module the build reaches is in the graph\<close>

lemma buildDeps_reached_step:
  assumes "\<And>p (c::compiler) c' q. buildModule fuel w p False c = Some (Inr c') \<Longrightarrow> config c = cfg \<Longrightarrow>
              root c = rt \<Longrightarrow> (p, q) \<in> (reference_rel w cfg rt)\<^sup>* \<Longrightarrow>
              module_id rt q \<in> fst ` set (modules c')"
    and "config c = cfg" and "root c = rt"
  shows "buildDeps fuel w deps c = Some (Inr c') \<Longrightarrow> dep \<in> set deps \<Longrightarrow>
           (path_join [rt, dep], q) \<in> (reference_rel w cfg rt)\<^sup>* \<Longrightarrow>
           module_id rt q \<in> fst ` set (modules c')"
  using assms(2,3)
proof (induction deps arbitrary: c)
  case Nil
  then show ?case by simp
next
  case (Cons d deps)
  from buildDeps_Cons_Inr[OF Cons.prems(1)] obtain c1 where
    a: "buildModule fuel w (path_join [root c, d]) False c = Some (Inr c1)" and
    b: "buildDeps fuel w deps c1 = Some (Inr c')" by blast
  from buildModule_frame[OF a] Cons.prems(4,5) have f: "config c1 = cfg" "root c1 = rt"
    by (simp_all add: frame_def)
  show ?case
  proof (cases "dep = d")
    case True
    with a Cons.prems(3,4,5) have "module_id rt q \<in> fst ` set (modules c1)"
      using assms(1)[of "path_join [rt, d]" c c1 q] by simp
    with buildDeps_keys[OF b] show ?thesis by (auto simp: keys_ok_def)
  next
    case False
    with Cons.prems(2) have "dep \<in> set deps" by simp
    from Cons.IH[OF b this Cons.prems(3) f] show ?thesis .
  qed
qed

lemma buildModule_reached:
  "buildModule fuel w p e c = Some (Inr c') \<Longrightarrow> config c = cfg \<Longrightarrow> root c = rt \<Longrightarrow>
     (p, q) \<in> (reference_rel w cfg rt)\<^sup>* \<Longrightarrow> module_id rt q \<in> fst ` set (modules c')"
proof (induction fuel arbitrary: p e c c' q)
  case 0
  then show ?case by simp
next
  case (Suc fuel)
  from Suc.prems(1) obtain source sourceCode deps where
    rs: "readSource w (config c) p = Inr source" and
    ps: "parse w source (path_dirname (module_id (root c) p)) = Inr (sourceCode, deps)" and
    bd: "buildDeps fuel w deps
       ((if e then c\<lparr>entryId := Some (module_id (root c) p)\<rparr> else c)
          \<lparr>modules := obj_set (module_id (root c) p) sourceCode (modules c)\<rparr>) = Some (Inr c')"
    by (rule buildModule_Suc_Inr)
  let ?c2 = "(if e then c\<lparr>entryId := Some (module_id (root c) p)\<rparr> else c)
          \<lparr>modules := obj_set (module_id (root c) p) sourceCode (modules c)\<rparr>"
  have refs: "references w cfg rt p = map (\<lambda>dep. path_join [rt, dep]) deps"
    using rs ps Suc.prems(2,3) by (simp add: references_def)
  show ?case
  proof (cases "p = q")
    case True
    with buildModule_keys[OF Suc.prems(1)] Suc.prems(3) show ?thesis by simp
  next
    case False
    with Suc.prems(4) obtain p' where pp': "(p, p') \<in> reference_rel w cfg rt"
      and p'q: "(p', q) \<in> (reference_rel w cfg rt)\<^sup>*"
      by (auto elim: converse_rtranclE)
    from pp' refs obtain dep where dep: "dep \<in> set deps" "p' = path_join [rt, dep]"
      by (auto simp: reference_rel_def)
    have c2: "config ?c2 = cfg" "root ?c2 = rt" using Suc.prems(2,3) by simp_all
    show ?thesis
      by (rule buildDeps_reached_step[where cfg = cfg and rt = rt and c = ?c2 and dep = dep,
              OF _ c2 bd dep(1)])
         (use Suc.IH p'q dep(2) in auto)
  qed
qed

subsection \<open>The text of the factories\<close>

lemma fold_push: "fold (\<lambda>key arr. arr @ [f key]) keys acc = acc @ map f keys"
  by (induction keys arbitrary: acc) auto

lemma module_source_distinct:
  "distinct (map fst (modules c)) \<Longrightarrow> (k, src) \<in> set (modules c) \<Longrightarrow> module_source c k = src"
  by (simp add: module_source_def)

lemma gTemplate_factories:
  assumes "distinct (map fst (modules c))"
  shows "gTemplate c =
     concat (map (\<lambda>(key, source). factory_text key (Some key = entryId c) source) (modules c))"
proof -
  have "map (\<lambda>key. factory_text key (Some key = entryId c) (module_source c key)) (map fst (modules c)) =
        map (\<lambda>(key, source). factory_text key (Some key = entryId c) source) (modules c)"
    unfolding map_map by (rule map_cong) (use module_source_distinct[OF assms] in auto)
  then show ?thesis by (simp only: gTemplate_def fold_push Let_def append_Nil)
qed

section \<open>Lemmas on the loader\<close>

lemma grows_refl: "grows rt rt"
  by (simp add: grows_def)

lemma grows_trans: "grows a b \<Longrightarrow> grows b c \<Longrightarrow> grows a c"
  by (auto simp: grows_def)

lemma grows_install:
  "installedModules rt moduleId = None \<Longrightarrow>
   grows rt (rt\<lparr>installedModules := (installedModules rt)(moduleId \<mapsto> m),
               executed := executed rt @ [moduleId]\<rparr>)"
  by (auto simp: grows_def once_def)

lemma grows_install_only:
  "installedModules rt moduleId = None \<Longrightarrow>
   grows rt (rt\<lparr>installedModules := (installedModules rt)(moduleId \<mapsto> m)\<rparr>)"
  by (auto simp: grows_def once_def)

lemma grows_update:
  "grows rt (rt\<lparr>installedModules := (installedModules rt)(moduleId \<mapsto> m)\<rparr>)"
  by (auto simp: grows_def once_def)

lemma grows_set_exports:
  "grows rt (rt\<lparr>installedModules :=
            (case installedModules rt self of
               None \<Rightarrow> installedModules rt
             | Some m \<Rightarrow> (installedModules rt)(self \<mapsto> m\<lparr>mod_exports := v\<rparr>))\<rparr>)"
  by (auto simp: grows_def once_def split: option.splits)

lemma loader_grows:
  "(\<forall>moduleId rt rt' out. webpack_require n e fs moduleId rt = (rt', out) \<longrightarrow> grows rt rt') \<and>
   (\<forall>self bound b rt rt' out. run_body n e fs self bound b rt = (rt', out) \<longrightarrow> grows rt rt')"
proof (induction n)
  case 0
  then show ?case by (simp add: grows_refl)
next
  case (Suc n)
  from Suc have wr: "\<And>moduleId rt rt' out. webpack_require n e fs moduleId rt = (rt', out) \<Longrightarrow> grows rt rt'"
    and rb: "\<And>self bound b rt rt' out. run_body n e fs self bound b rt = (rt', out) \<Longrightarrow> grows rt rt'"
    by blast+
  have A: "grows rt rt'" if h: "webpack_require (Suc n) e fs moduleId rt = (rt', out)"
    for moduleId rt rt' out
  proof (cases "installedModules rt moduleId")
    case (Some m)
    with h show ?thesis by (simp add: grows_refl)
  next
    case None
    let ?module = "\<lparr>mod_i = moduleId, mod_l = False, mod_exports = e\<rparr>"
    let ?rt1 = "rt\<lparr>installedModules := (installedModules rt)(moduleId \<mapsto> ?module)\<rparr>"
    show ?thesis
    proof (cases "fs moduleId")
      case fnone: None
      with None h have "rt' = ?rt1" by simp
      with grows_install_only[OF None] show ?thesis by simp
    next
      case (Some f)
      obtain bound b where f: "f = (bound, b)" by (cases f)
      let ?rt1e = "?rt1\<lparr>executed := executed ?rt1 @ [moduleId]\<rparr>"
      obtain rt2 out2 where r: "run_body n e fs moduleId bound b ?rt1e = (rt2, out2)"
        by (cases "run_body n e fs moduleId bound b ?rt1e")
      have g1: "grows rt ?rt1e" using grows_install[OF None, of ?module] by simp
      have g2: "grows ?rt1e rt2" by (rule rb[OF r])
      show ?thesis
      proof (cases out2)
        case (Returned x)
        with None Some f r h obtain m3 where
          "rt' = rt2\<lparr>installedModules := (installedModules rt2)(moduleId \<mapsto> m3)\<rparr>"
          by (auto simp: Let_def)
        with grows_update[of rt2 moduleId m3] have "grows rt2 rt'" by simp
        with g1 g2 show ?thesis by (blast intro: grows_trans)
      next
        case Thrown
        with None Some f r h have "rt' = rt2" by simp
        with g1 g2 show ?thesis by (blast intro: grows_trans)
      next
        case Exhausted
        with None Some f r h have "rt' = rt2" by simp
        with g1 g2 show ?thesis by (blast intro: grows_trans)
      qed
    qed
  qed
  have B: "grows rt rt'" if h: "run_body (Suc n) e fs self bound b rt = (rt', out)"
    for self bound b rt rt' out
  proof (cases b)
    case Done
    with h show ?thesis by (simp add: grows_refl)
  next
    case Throw
    with h show ?thesis by (simp add: grows_refl)
  next
    case (SetExports v b')
    with h rb grows_set_exports[of rt self v] show ?thesis
      by (auto intro: grows_trans)
  next
    case (Require moduleId k)
    show ?thesis
    proof (cases bound)
      case False
      with Require h show ?thesis by (simp add: grows_refl)
    next
      case True
      obtain rt1 out1 where r: "webpack_require n e fs moduleId rt = (rt1, out1)"
        by (cases "webpack_require n e fs moduleId rt")
      note g1 = wr[OF r]
      show ?thesis
      proof (cases out1)
        case (Returned v)
        with Require True r h have "run_body n e fs self bound (k v) rt1 = (rt', out)" by simp
        from rb[OF this] g1 show ?thesis by (blast intro: grows_trans)
      next
        case Thrown
        with Require True r h g1 show ?thesis by simp
      next
        case Exhausted
        with Require True r h g1 show ?thesis by simp
      qed
    qed
  qed
  from A B show ?case by blast
qed

lemma webpack_require_grows:
  "webpack_require n e fs moduleId rt = (rt', out) \<Longrightarrow> grows rt rt'"
  using loader_grows[of n e fs] by blast

lemma run_body_grows:
  "run_body n e fs self bound b rt = (rt', out) \<Longrightarrow> grows rt rt'"
  using loader_grows[of n e fs] by blast

lemma webpack_require_fresh:
  assumes "installedModules rt moduleId = None"
    and "webpack_require n e fs moduleId rt = (rt', Returned v)"
  shows "(\<exists>bound b. fs moduleId = Some (bound, b)) \<and>
         (\<exists>m. installedModules rt' moduleId = Some m \<and> mod_l m \<and> mod_exports m = v) \<and>
         moduleId \<in> set (executed rt')"
proof (cases n)
  case 0
  with assms show ?thesis by simp
next
  case (Suc k)
  let ?module = "\<lparr>mod_i = moduleId, mod_l = False, mod_exports = e\<rparr>"
  let ?rt1 = "rt\<lparr>installedModules := (installedModules rt)(moduleId \<mapsto> ?module)\<rparr>"
  let ?rt1e = "?rt1\<lparr>executed := executed ?rt1 @ [moduleId]\<rparr>"
  from assms Suc obtain bound b where f: "fs moduleId = Some (bound, b)"
    by (cases "fs moduleId") auto
  obtain rt2 out2 where r: "run_body k e fs moduleId bound b ?rt1e = (rt2, out2)"
    by (cases "run_body k e fs moduleId bound b ?rt1e")
  from assms Suc f r obtain x where out2: "out2 = Returned x"
    by (cases out2) auto
  from run_body_grows[OF r] have ex: "moduleId \<in> set (executed rt2)"
    by (auto simp: grows_def)
  from assms Suc f r out2 ex show ?thesis by (auto simp: Let_def)
qed

section \<open>Lemmas on the loaders\<close>

lemma fold_chain_Inl:
  "fold (\<lambda>f r. case r of Inl e \<Rightarrow> Inl e | Inr c \<Rightarrow> f c) fs (Inl e) = Inl e"
  by (induction fs) auto

lemma loader_fn_chain:
  "0 \<le> len \<Longrightarrow> len < int (length use_list) \<Longrightarrow>
     loader_fn use_list len content = chain_from_last (take (nat len + 1) use_list) content"
proof (induction "nat len" arbitrary: len content)
  case 0
  then have len: "len = 0" by simp
  with 0 have "take (Suc 0) use_list = [use_list ! 0]"
    by (cases use_list) auto
  with len 0 show ?case
    by (simp add: chain_from_last_def split: sum.splits)
next
  case (Suc k)
  then have k: "k = nat (len - 1)" and pos: "0 \<le> len - 1" "len - 1 < int (length use_list)"
    by auto
  have n: "nat len = Suc k" using Suc by simp
  from Suc.prems have lt: "Suc k < length use_list" using n by linarith
  have tk: "take (Suc (Suc k)) use_list = take (Suc k) use_list @ [use_list ! Suc k]"
    using lt by (simp add: take_Suc_conv_app_nth)
  have nk: "nat (len - 1) + 1 = Suc k" using k n by simp
  show ?case
  proof (cases "(use_list ! Suc k) content")
    case (Inl e)
    with Suc.prems n tk show ?thesis
      by (subst loader_fn.simps) (simp add: chain_from_last_def fold_chain_Inl)
  next
    case (Inr c')
    from Suc.hyps(1)[OF k pos, of c'] nk
    have "loader_fn use_list (len - 1) c' = chain_from_last (take (Suc k) use_list) c'" by simp
    with Inr Suc.prems n tk pos show ?thesis
      by (subst loader_fn.simps) (simp add: chain_from_last_def)
  qed
qed

lemma loader_fn_whole_chain:
  "use_list \<noteq> [] \<Longrightarrow>
     loader_fn use_list (int (length use_list) - 1) content = chain_from_last use_list content"
proof -
  assume ne: "use_list \<noteq> []"
  then have l: "0 < length use_list" by simp
  have "loader_fn use_list (int (length use_list) - 1) content =
        chain_from_last (take (nat (int (length use_list) - 1) + 1) use_list) content"
    by (rule loader_fn_chain) (use l in auto)
  moreover have "nat (int (length use_list) - 1) + 1 = length use_list"
    using ne by (cases use_list) simp_all
  ultimately show ?thesis by simp
qed

lemma loader_fn_empty: "loader_fn [] (int (length ([]::loader list)) - 1) content = Inl TypeError"
  by simp

lemma fold_rules_Inl:
  "fold (\<lambda>r acc. case acc of
                     Inl e \<Rightarrow> Inl e
                   | Inr c \<Rightarrow>
                       (if test r path then
                          (if use r = [] then Inl TypeError else chain_from_last (use r) c)
                        else Inr c)) rs (Inl e) = Inl e"
  by (induction rs) simp_all

lemma apply_rules_in_rule_order:
  "apply_rules rules path content =
     fold (\<lambda>r acc. case acc of
                     Inl e \<Rightarrow> Inl e
                   | Inr c \<Rightarrow>
                       (if test r path then
                          (if use r = [] then Inl TypeError else chain_from_last (use r) c)
                        else Inr c))
       rules (Inr content)"
proof (induction rules arbitrary: content)
  case Nil
  then show ?case by simp
next
  case (Cons r rules)
  show ?case
  proof (cases "test r path")
    case False
    with Cons.IH show ?thesis by simp
  next
    case True
    show ?thesis
    proof (cases "use r = []")
      case e: True
      have "loader_fn (use r) (int (length (use r)) - 1) content = Inl TypeError"
        using e by (subst loader_fn.simps) simp
      with True e show ?thesis by (simp add: fold_rules_Inl del: loader_fn.simps)
    next
      case ne: False
      note l = loader_fn_whole_chain[OF ne, of content]
      show ?thesis
      proof (cases "chain_from_last (use r) content")
        case (Inl err)
        with True ne l show ?thesis by (simp add: fold_rules_Inl del: loader_fn.simps)
      next
        case (Inr c')
        with True ne l Cons.IH[of c'] show ?thesis by (simp del: loader_fn.simps)
      qed
    qed
  qed
qed

lemma readSource_without_rules:
  "cfg_module cfg = None \<Longrightarrow>
     readSource w cfg path =
       (case map_of (files w) path of None \<Rightarrow> Inl IOError | Some content \<Rightarrow> Inr content)"
  by (simp add: readSource_def split: option.splits)

section \<open>Lemmas for the sample inputs\<close>


lemma references_not_file:
  "p \<notin> fst ` set (files w) \<Longrightarrow> references w cfg rt p = []"
  by (cases "readSource w cfg p") (auto simp: references_def dest: readSource_in_files)

section \<open>The claims on the rewrite\<close>

text \<open>
  C6, as the specification states it: the dependency list has one entry for every call of
  \<^verbatim>\<open>require\<close> in the pre-order of the syntax tree. It fails for a call inside the arguments
  of another call of \<^verbatim>\<open>require\<close>: the tree of \<^verbatim>\<open>require("./a", require("./a"))\<close> has two
  calls that ask for \<^verbatim>\<open>./a\<close>, and \<^verbatim>\<open>parse\<close> lists the id once.
\<close>

theorem nested_repetition_is_listed_once:
  "babylon_parse twice_world twice_source = Inr twice_ast \<and>
   List.map_filter require_target (preorder twice_ast) = [''./a'', ''./a''] \<and>
   map (\<lambda>v. normalizeModuleName v (path_dirname ''./index.js''))
     (List.map_filter require_target (preorder twice_ast)) = [''./a.js'', ''./a.js''] \<and>
   parse twice_world twice_source (path_dirname ''./index.js'') =
     Inr (print_node (program [Other ''ExpressionStatement''
                     [CallExpression (Identifier ''__webpack_require__'') [StringLiteral ''./a.js'']]]),
          [''./a.js''])"
  by code_simp

text \<open>
  C6, amended. The dependency list \<^verbatim>\<open>parse\<close> returns is the list of the canonical ids of
  the calls of \<^verbatim>\<open>require\<close> the walker enters, in the order it enters them (a node before its
  children, children from left to right, nothing below a call of \<^verbatim>\<open>require\<close>), one entry
  per such call: a target required by two of them is listed twice.
\<close>

theorem parse_dependencies_in_walk_order:
  assumes "parse w source parentPath = Inr (sourceCode, dependencies)"
  shows "\<exists>ast. babylon_parse w source = Inr ast \<and>
           dependencies =
             map (\<lambda>v. normalizeModuleName v parentPath)
               (List.map_filter require_target (walk ast))"
proof -
  from assms obtain ast ast' where
    a: "babylon_parse w source = Inr ast" and
    t: "traverse parentPath ast [] = Inr (ast', dependencies)"
    by (auto simp: parse_def split: sum.splits)
  from traverse_deps(1)[OF t] have "dependencies = canonical_ids parentPath (walk ast)" by simp
  with a show ?thesis by (simp add: canonical_ids_def)
qed

theorem parse_dependencies_in_walk_order_witness:
  "parse diamond_world (js_require ''./a'' @ js_require ''./a'' @ js_require ''./lib/b'') ''./src'' =
     Inr (print_node
            (program [Other ''ExpressionStatement''
                        [CallExpression (Identifier ''__webpack_require__'') [StringLiteral ''./src/a.js'']],
                      Other ''ExpressionStatement''
                        [CallExpression (Identifier ''__webpack_require__'') [StringLiteral ''./src/a.js'']],
                      Other ''ExpressionStatement''
                        [CallExpression (Identifier ''__webpack_require__'') [StringLiteral ''./src/lib/b.js'']]]),
          [''./src/a.js'', ''./src/a.js'', ''./src/lib/b.js'']) \<and>
   (\<exists>ast. babylon_parse diamond_world (js_require ''./a'' @ js_require ''./a'' @ js_require ''./lib/b'') = Inr ast \<and>
      [''./src/a.js'', ''./src/a.js'', ''./src/lib/b.js''] =
        map (\<lambda>v. normalizeModuleName v ''./src'') (List.map_filter require_target (walk ast)))"
proof -
  have h: "parse diamond_world (js_require ''./a'' @ js_require ''./a'' @ js_require ''./lib/b'') ''./src'' =
     Inr (print_node
            (program [Other ''ExpressionStatement''
                        [CallExpression (Identifier ''__webpack_require__'') [StringLiteral ''./src/a.js'']],
                      Other ''ExpressionStatement''
                        [CallExpression (Identifier ''__webpack_require__'') [StringLiteral ''./src/a.js'']],
                      Other ''ExpressionStatement''
                        [CallExpression (Identifier ''__webpack_require__'') [StringLiteral ''./src/lib/b.js'']]]),
          [''./src/a.js'', ''./src/a.js'', ''./src/lib/b.js''])"
    by code_simp
  from parse_dependencies_in_walk_order[OF h] h show ?thesis by simp
qed

text \<open>
  C1, as the specification states it: every call \<^verbatim>\<open>require("X")\<close> in the source of a module
  is rewritten and its canonical id is in the dependency list. It fails for a call inside
  the arguments of another call of \<^verbatim>\<open>require\<close>: in \<^verbatim>\<open>require("./a", require("./b"))\<close> the
  inner call, at position \<open>[0, 0, 2]\<close>, is dropped with the arguments of the outer call;
  the rewritten tree has no node there and \<^verbatim>\<open>./b.js\<close> is not a dependency.
\<close>

theorem nested_require_is_dropped:
  "babylon_parse nested_world nested_source = Inr nested_ast \<and>
   subnode nested_ast [0, 0, 2] =
     Some (CallExpression (Identifier ''require'') [StringLiteral ''./b'']) \<and>
   traverse (path_dirname ''./index.js'') nested_ast [] =
     Inr (program [Other ''ExpressionStatement''
                     [CallExpression (Identifier ''__webpack_require__'') [StringLiteral ''./a.js'']]],
          [''./a.js'']) \<and>
   subnode (program [Other ''ExpressionStatement''
                     [CallExpression (Identifier ''__webpack_require__'') [StringLiteral ''./a.js'']]])
     [0, 0, 2] = None \<and>
   parse nested_world nested_source (path_dirname ''./index.js'') =
     Inr (print_node (program [Other ''ExpressionStatement''
                     [CallExpression (Identifier ''__webpack_require__'') [StringLiteral ''./a.js'']]]),
          [''./a.js'']) \<and>
   normalizeModuleName ''./b'' (path_dirname ''./index.js'') = ''./b.js'' \<and>
   ''./b.js'' \<notin> set [''./a.js'']"
  by code_simp

text \<open>
  C1, amended. Let \<^verbatim>\<open>parse\<close> succeed on the source of the module with id \<open>P\<close>, and let a call
  \<^verbatim>\<open>require("X")\<close> stand at a position the walker reaches (no node above it is a call of
  \<^verbatim>\<open>require\<close>). Then the rewritten source is the print of a tree that has, at the same
  position, the call of \<^verbatim>\<open>__webpack_require__\<close> with the canonical id as its only argument,
  and the canonical id is in the dependency list. The canonical id is \<^verbatim>\<open>./\<close> followed by
  the join of the directory of \<open>P\<close> with \<open>X\<close> (extended by \<^verbatim>\<open>.js\<close> when \<open>X\<close> has no extension),
  backslashes replaced by slashes.
\<close>

theorem parse_rewrites_reached_require:
  assumes "babylon_parse w source = Inr ast"
    and "parse w source (path_dirname P) = Inr (sourceCode, dependencies)"
    and "reached ast pos"
    and "subnode ast pos = Some (CallExpression (Identifier ''require'') [StringLiteral X])"
  shows "\<exists>ast'. sourceCode = generator w ast' \<and>
           subnode ast' pos =
             Some (CallExpression (Identifier ''__webpack_require__'')
                     [StringLiteral
                        (''./'' @ replace_backslashes
                           (path_join [path_dirname P,
                                       X @ (if path_extname X \<noteq> [] then [] else ''.js'')]))]) \<and>
           ''./'' @ replace_backslashes
              (path_join [path_dirname P, X @ (if path_extname X \<noteq> [] then [] else ''.js'')])
             \<in> set dependencies"
proof -
  from assms(1,2) obtain ast' where
    t: "traverse (path_dirname P) ast [] = Inr (ast', dependencies)" and
    g: "sourceCode = generator w ast'"
    by (auto simp: parse_def split: sum.splits)
  have n: "normalizeModuleName X (path_dirname P) =
      ''./'' @ replace_backslashes
          (path_join [path_dirname P, X @ (if path_extname X \<noteq> [] then [] else ''.js'')])"
    by (simp add: normalizeModuleName_def normalizePath_def Let_def)
  from traverse_reached[OF t assms(3,4)] g n show ?thesis by auto
qed

theorem parse_rewrites_reached_require_witness:
  "reached (program [require_stmt ''./a'', require_stmt ''./a'', require_stmt ''./lib/b'']) [2, 0] \<and>
   subnode (program [require_stmt ''./a'', require_stmt ''./a'', require_stmt ''./lib/b'']) [2, 0] =
     Some (CallExpression (Identifier ''require'') [StringLiteral ''./lib/b'']) \<and>
   (\<exists>ast'. print_node (program
               [Other ''ExpressionStatement''
                  [CallExpression (Identifier ''__webpack_require__'') [StringLiteral ''./src/a.js'']],
                Other ''ExpressionStatement''
                  [CallExpression (Identifier ''__webpack_require__'') [StringLiteral ''./src/a.js'']],
                Other ''ExpressionStatement''
                  [CallExpression (Identifier ''__webpack_require__'') [StringLiteral ''./src/lib/b.js'']]])
             = generator diamond_world ast' \<and>
           subnode ast' [2, 0] =
             Some (CallExpression (Identifier ''__webpack_require__'') [StringLiteral ''./src/lib/b.js'']) \<and>
           ''./src/lib/b.js'' \<in> set [''./src/a.js'', ''./src/a.js'', ''./src/lib/b.js''])"
proof -
  let ?src = "js_require ''./a'' @ js_require ''./a'' @ js_require ''./lib/b''"
  let ?ast = "program [require_stmt ''./a'', require_stmt ''./a'', require_stmt ''./lib/b'']"
  let ?out = "program
               [Other ''ExpressionStatement''
                  [CallExpression (Identifier ''__webpack_require__'') [StringLiteral ''./src/a.js'']],
                Other ''ExpressionStatement''
                  [CallExpression (Identifier ''__webpack_require__'') [StringLiteral ''./src/a.js'']],
                Other ''ExpressionStatement''
                  [CallExpression (Identifier ''__webpack_require__'') [StringLiteral ''./src/lib/b.js'']]]"
  have h1: "babylon_parse diamond_world ?src = Inr ?ast" by code_simp
  have h2: "parse diamond_world ?src (path_dirname ''./src/index.js'') =
              Inr (print_node ?out, [''./src/a.js'', ''./src/a.js'', ''./src/lib/b.js''])"
    by code_simp
  have h3: "reached ?ast [2, 0]" by code_simp
  have h4: "subnode ?ast [2, 0] =
     Some (CallExpression (Identifier ''require'') [StringLiteral ''./lib/b''])" by code_simp
  have e: "''./'' @ replace_backslashes
              (path_join [path_dirname ''./src/index.js'',
                 ''./lib/b'' @ (if path_extname ''./lib/b'' \<noteq> [] then [] else ''.js'')]) =
           ''./src/lib/b.js''" by code_simp
  from parse_rewrites_reached_require[OF h1 h2 h3 h4] h3 h4 show ?thesis
    unfolding e by simp
qed



section \<open>The claims on the build and the bundle\<close>

lemma succeeded_Inr: "succeeded r \<Longrightarrow> \<exists>c. r = Some (Inr c)"
  by (auto simp: succeeded_def split: option.splits sum.splits)

lemma run_Inr:
  assumes "run fuel w c0 = Some (Inr c)"
  obtains c' where
    "buildModule fuel w (path_resolve (root c0) [root c0, entry c0]) True c0 = Some (Inr c')"
    "c = emitFile c'"
  using assms by (auto simp: run_def split: option.splits sum.splits)

lemma gTemplate_emitFile: "gTemplate (emitFile c) = gTemplate c"
  by (simp add: gTemplate_def emitFile_def module_source_def Let_def)

lemma emitFile_fields: "modules (emitFile c) = modules c" "entryId (emitFile c) = entryId c"
  by (simp_all add: emitFile_def Let_def)

lemma run_of_build:
  "buildModule fuel w (path_resolve (root c0) [root c0, entry c0]) True c0 = Some (Inr c') \<Longrightarrow>
     run fuel w c0 = Some (Inr (emitFile c'))"
  by (simp add: run_def)

text \<open>The build of the sample project.\<close>

lemma diamond_entry_path:
  "path_resolve (root (new_compiler (sample_options ''./src/index.js'') ''/proj''))
     [root (new_compiler (sample_options ''./src/index.js'') ''/proj''),
      entry (new_compiler (sample_options ''./src/index.js'') ''/proj'')] = ''/proj/src/index.js''"
  by code_simp

lemma diamond_build:
  "case buildModule 3 diamond_world ''/proj/src/index.js'' True
          (new_compiler (sample_options ''./src/index.js'') ''/proj'') of
     Some (Inr c) \<Rightarrow>
       map fst (modules c) = [''./src/index.js'', ''./src/a.js'', ''./src/lib/b.js''] \<and>
       entryId c = Some ''./src/index.js''
   | _ \<Rightarrow> False"
  by code_simp

lemma diamond_run:
  obtains c where
    "run 3 diamond_world (new_compiler (sample_options ''./src/index.js'') ''/proj'') = Some (Inr c)"
    "map fst (modules c) = [''./src/index.js'', ''./src/a.js'', ''./src/lib/b.js'']"
    "entryId c = Some ''./src/index.js''"
proof -
  let ?c0 = "new_compiler (sample_options ''./src/index.js'') ''/proj''"
  from diamond_build obtain c' where
    b: "buildModule 3 diamond_world ''/proj/src/index.js'' True ?c0 = Some (Inr c')" and
    k: "map fst (modules c') = [''./src/index.js'', ''./src/a.js'', ''./src/lib/b.js'']"
       "entryId c' = Some ''./src/index.js''"
    by (auto split: option.splits sum.splits)
  from b have "run 3 diamond_world ?c0 = Some (Inr (emitFile c'))"
    by (intro run_of_build) (simp only: diamond_entry_path)
  with k that show thesis by (simp only: emitFile_fields)
qed

text \<open>
  C4. After a build that succeeds, the entry id is the id \<^verbatim>\<open>buildModule\<close> computes for the
  configured entry file (its path relative to the root, with \<^verbatim>\<open>./\<close> in front), the bundle
  recorded for the output file calls the loader with exactly that id, and no build of a
  dependency (a call with \<open>isEntry = False\<close>) changes the entry id.
\<close>

theorem bootstrap_id_is_entry_id:
  assumes "run fuel w (new_compiler cfg cwd) = Some (Inr c)"
    and "buildModule fuel' w' p False c0 = Some (Inr c1)"
  shows "entryId c =
           Some (normalizePath (path_relative cwd cwd (path_resolve cwd [cwd, cfg_entry cfg]))) \<and>
         map_of (assets c) (path_join [cfg_output_path cfg, cfg_output_filename cfg]) =
           Some (unlines loader_text @
                 ''      return __webpack_require__((__webpack_require__.s = '' @ [CHR 0x22] @
                   normalizePath (path_relative cwd cwd (path_resolve cwd [cwd, cfg_entry cfg])) @
                   [CHR 0x22] @ ''));'' @ [CHR 0x0A] @
                 ''    })({'' @ [CHR 0x0A] @
                 ''      '' @ gTemplate c @ [CHR 0x0A] @
                 ''    });'' @ [CHR 0x0A] @
                 ''    '') \<and>
         entryId c1 = entryId c0"
proof -
  let ?c0 = "new_compiler cfg cwd"
  let ?id = "normalizePath (path_relative cwd cwd (path_resolve cwd [cwd, cfg_entry cfg]))"
  from assms(1) obtain c' where
    b: "buildModule fuel w (path_resolve (root ?c0) [root ?c0, entry ?c0]) True ?c0 = Some (Inr c')"
    and c: "c = emitFile c'"
    by (rule run_Inr)
  from buildModule_frame[OF b] have
    f: "config c' = cfg" "assets c' = []" and e: "entryId c' = Some ?id"
    by (simp_all add: frame_def new_compiler_def module_id_def)
  have 1: "entryId c = Some ?id" using c e by (simp add: emitFile_def Let_def)
  have 2: "map_of (assets c) (path_join [cfg_output_path cfg, cfg_output_filename cfg]) =
             Some (template c')"
    using c f by (simp add: emitFile_def Let_def)
  have 3: "template c' = unlines loader_text @
                 ''      return __webpack_require__((__webpack_require__.s = '' @ [CHR 0x22] @
                   ?id @ [CHR 0x22] @ ''));'' @ [CHR 0x0A] @
                 ''    })({'' @ [CHR 0x0A] @
                 ''      '' @ gTemplate c @ [CHR 0x0A] @
                 ''    });'' @ [CHR 0x0A] @
                 ''    ''"
    unfolding c gTemplate_emitFile using e by (simp add: template_def bootstrap_id_def)
  from buildModule_frame[OF assms(2)] have 4: "entryId c1 = entryId c0" by simp
  from 1 2 3 4 show ?thesis by simp
qed

theorem bootstrap_id_is_entry_id_witness:
  "\<exists>c c1.
     run 3 diamond_world (new_compiler (sample_options ''./src/index.js'') ''/proj'') = Some (Inr c) \<and>
     buildModule 3 diamond_world ''/proj/src/lib/b.js'' False
       (new_compiler (sample_options ''./src/index.js'') ''/proj'') = Some (Inr c1) \<and>
     entryId c = Some ''./src/index.js'' \<and>
     map_of (assets c) ''dist/main.js'' =
           Some (unlines loader_text @
                 ''      return __webpack_require__((__webpack_require__.s = '' @ [CHR 0x22] @
                   ''./src/index.js'' @ [CHR 0x22] @ ''));'' @ [CHR 0x0A] @
                 ''    })({'' @ [CHR 0x0A] @
                 ''      '' @ gTemplate c @ [CHR 0x0A] @
                 ''    });'' @ [CHR 0x0A] @
                 ''    '') \<and>
     entryId c1 = None"
proof -
  let ?c0 = "new_compiler (sample_options ''./src/index.js'') ''/proj''"
  obtain c where h1: "run 3 diamond_world ?c0 = Some (Inr c)"
    by (rule diamond_run)
  have "succeeded (buildModule 3 diamond_world ''/proj/src/lib/b.js'' False ?c0)" by code_simp
  then obtain c1 where h2: "buildModule 3 diamond_world ''/proj/src/lib/b.js'' False ?c0 = Some (Inr c1)"
    by (auto dest: succeeded_Inr)
  have e1: "normalizePath (path_relative ''/proj'' ''/proj''
              (path_resolve ''/proj'' [''/proj'', cfg_entry (sample_options ''./src/index.js'')])) =
            ''./src/index.js''" by code_simp
  have e2: "path_join [cfg_output_path (sample_options ''./src/index.js''),
                       cfg_output_filename (sample_options ''./src/index.js'')] = ''dist/main.js''"
    by code_simp
  have e3: "entryId ?c0 = None" by (simp add: new_compiler_def)
  note r = bootstrap_id_is_entry_id[OF h1 h2, unfolded e1 e2 e3]
  show ?thesis
    by (intro exI[of _ c] exI[of _ c1] conjI h1 h2 conjunct1[OF r]
          conjunct1[OF conjunct2[OF r]] conjunct2[OF conjunct2[OF r]])
qed

text \<open>
  C7. After a build that succeeds, the keys of the module graph are pairwise different and
  the text \<^verbatim>\<open>gTemplate\<close> generates is, pair by pair in the order of the graph, one factory
  keyed by the pair's id around the pair's source; the third parameter of the factory is
  \<^verbatim>\<open>__webpack_require__\<close> when the id is the entry id and is left out otherwise.
\<close>

theorem one_factory_per_module:
  assumes "run fuel w (new_compiler cfg cwd) = Some (Inr c)"
  shows "distinct (map fst (modules c)) \<and>
         gTemplate c =
           concat (map (\<lambda>(key, source).
                     [CHR 0x22] @ key @ [CHR 0x22] @ '': function (module, exports, '' @
                     (if Some key = entryId c then ''__webpack_require__'' else []) @
                     '') {'' @ [CHR 0x0A] @
                     ''          eval('' @ [CHR 0x60] @ source @ [CHR 0x60] @ '');'' @ [CHR 0x0A] @
                     ''        },'')
                   (modules c))"
proof -
  let ?c0 = "new_compiler cfg cwd"
  from assms obtain c' where
    b: "buildModule fuel w (path_resolve (root ?c0) [root ?c0, entry ?c0]) True ?c0 = Some (Inr c')"
    and c: "c = emitFile c'"
    by (rule run_Inr)
  from buildModule_keys[OF b] have "distinct (map fst (modules c'))"
    by (simp add: keys_ok_def new_compiler_def)
  then have d: "distinct (map fst (modules c))" using c by (simp add: emitFile_def Let_def)
  from gTemplate_factories[OF d] d show ?thesis by (simp add: factory_text_def)
qed

theorem one_factory_per_module_witness:
  "\<exists>c. run 3 diamond_world (new_compiler (sample_options ''./src/index.js'') ''/proj'') = Some (Inr c) \<and>
     map fst (modules c) = [''./src/index.js'', ''./src/a.js'', ''./src/lib/b.js''] \<and>
     entryId c = Some ''./src/index.js'' \<and>
     distinct (map fst (modules c)) \<and>
     gTemplate c =
           concat (map (\<lambda>(key, source).
                     [CHR 0x22] @ key @ [CHR 0x22] @ '': function (module, exports, '' @
                     (if Some key = entryId c then ''__webpack_require__'' else []) @
                     '') {'' @ [CHR 0x0A] @
                     ''          eval('' @ [CHR 0x60] @ source @ [CHR 0x60] @ '');'' @ [CHR 0x0A] @
                     ''        },'')
                   (modules c))"
proof -
  let ?c0 = "new_compiler (sample_options ''./src/index.js'') ''/proj''"
  obtain c where h: "run 3 diamond_world ?c0 = Some (Inr c)"
    and k: "map fst (modules c) = [''./src/index.js'', ''./src/a.js'', ''./src/lib/b.js'']"
           "entryId c = Some ''./src/index.js''"
    by (rule diamond_run)
  note r = one_factory_per_module[OF h]
  show ?thesis
    by (intro exI[of _ c] conjI h k conjunct1[OF r] conjunct2[OF r])
qed

text \<open>
  C2, at an input where the code breaks it. In \<^verbatim>\<open>/proj/index.js\<close> the call
  \<^verbatim>\<open>require("../../x")\<close> gets the canonical id \<^verbatim>\<open>./../../x.js\<close>. The path built from it,
  \<^verbatim>\<open>/x.js\<close>, cannot climb above the root of the file system, so the module is stored under
  the id \<^verbatim>\<open>./../x.js\<close>. The build succeeds, and the dependency id is no key of the graph.
\<close>

theorem dependency_above_root_is_no_key:
  "(case run 3 escape_world (new_compiler (sample_options ''./index.js'') ''/proj'') of
      Some (Inr c) \<Rightarrow> map fst (modules c) = [''./index.js'', ''./../x.js'']
    | _ \<Rightarrow> False) \<and>
   readSource escape_world (sample_options ''./index.js'') ''/proj/index.js'' =
     Inr (js_require ''../../x'') \<and>
   parse escape_world (js_require ''../../x'') (path_dirname ''./index.js'') =
     Inr (print_node (program [Other ''ExpressionStatement''
            [CallExpression (Identifier ''__webpack_require__'') [StringLiteral ''./../../x.js'']]]),
          [''./../../x.js'']) \<and>
   path_join [''/proj'', ''./../../x.js''] = ''/x.js'' \<and>
   normalizePath (path_relative ''/proj'' ''/proj'' ''/x.js'') = ''./../x.js'' \<and>
   ''./../../x.js'' \<notin> set [''./index.js'', ''./../x.js'']"
proof -
  let ?c0 = "new_compiler (sample_options ''./index.js'') ''/proj''"
  have p: "path_resolve (root ?c0) [root ?c0, entry ?c0] = ''/proj/index.js''" by code_simp
  have "case buildModule 3 escape_world ''/proj/index.js'' True ?c0 of
          Some (Inr c) \<Rightarrow> map fst (modules c) = [''./index.js'', ''./../x.js'']
        | _ \<Rightarrow> False" by code_simp
  then obtain c' where
    b: "buildModule 3 escape_world ''/proj/index.js'' True ?c0 = Some (Inr c')" and
    k: "map fst (modules c') = [''./index.js'', ''./../x.js'']"
    by (auto split: option.splits sum.splits)
  from b have r: "run 3 escape_world ?c0 = Some (Inr (emitFile c'))"
    by (intro run_of_build) (simp only: p)
  have k': "map fst (modules (emitFile c')) = [''./index.js'', ''./../x.js'']"
    using k by (simp only: emitFile_fields)
  have 1: "case run 3 escape_world ?c0 of
      Some (Inr c) \<Rightarrow> map fst (modules c) = [''./index.js'', ''./../x.js'']
    | _ \<Rightarrow> False"
    unfolding r using k' by (simp only: option.case sum.case)
  have 2: "readSource escape_world (sample_options ''./index.js'') ''/proj/index.js'' =
     Inr (js_require ''../../x'') \<and>
   parse escape_world (js_require ''../../x'') (path_dirname ''./index.js'') =
     Inr (print_node (program [Other ''ExpressionStatement''
            [CallExpression (Identifier ''__webpack_require__'') [StringLiteral ''./../../x.js'']]]),
          [''./../../x.js'']) \<and>
   path_join [''/proj'', ''./../../x.js''] = ''/x.js'' \<and>
   normalizePath (path_relative ''/proj'' ''/proj'' ''/x.js'') = ''./../x.js'' \<and>
   ''./../../x.js'' \<notin> set [''./index.js'', ''./../x.js'']"
    by code_simp
  from 1 2 show ?thesis by (rule conjI)
qed

text \<open>
  C5, at an input where the code breaks it. A rule that matches the path and has an empty
  chain makes \<^verbatim>\<open>readSource\<close> call \<^verbatim>\<open>loader\<close> once all the same, and \<^verbatim>\<open>require(use[-1])\<close>
  throws; the content is not returned.
\<close>

theorem empty_chain_throws:
  "map_of (files diamond_world) ''/proj/src/lib/b.js'' = Some (js_require ''../a'') \<and>
   readSource diamond_world empty_chain_options ''/proj/src/lib/b.js'' = Inl TypeError"
  by code_simp











text \<open>
  C8. A call of the loader with an id that is installed returns the exports of the installed
  record and changes nothing. A call with an id that is not installed, when it returns,
  has found a factory for the id and called it, and leaves the record installed, marked
  as loaded, with the exports it returns. No call makes a factory run a second time: in a
  state where no factory has run twice and every module whose factory has run is
  installed, as in the fresh state of a bundle, a call of the loader leads to such a state
  again, however it ends.
\<close>

theorem loader_runs_each_factory_at_most_once:
  assumes "installedModules rt1 id1 = Some m"
    and "installedModules rt2 id2 = None"
    and "webpack_require fuel2 empty_obj fs id2 rt2 = (rt2', Returned v)"
    and "distinct (executed rt3)"
    and "set (executed rt3) \<subseteq> dom (installedModules rt3)"
    and "webpack_require fuel3 empty_obj fs id3 rt3 = (rt3', out)"
  shows "webpack_require (Suc fuel1) empty_obj fs id1 rt1 = (rt1, Returned (mod_exports m)) \<and>
         (\<exists>bound b. fs id2 = Some (bound, b)) \<and>
         (\<exists>m'. installedModules rt2' id2 = Some m' \<and> mod_l m' \<and> mod_exports m' = v) \<and>
         id2 \<in> set (executed rt2') \<and>
         distinct (executed rt3') \<and>
         set (executed rt3') \<subseteq> dom (installedModules rt3') \<and>
         distinct (executed (fresh_runtime :: 'a runtime)) \<and>
         set (executed (fresh_runtime :: 'a runtime)) \<subseteq> dom (installedModules (fresh_runtime :: 'a runtime))"
proof -
  have 1: "webpack_require (Suc fuel1) empty_obj fs id1 rt1 = (rt1, Returned (mod_exports m))"
    using assms(1) by simp
  note 2 = webpack_require_fresh[OF assms(2,3)]
  from assms(4,5) have "once rt3" by (simp add: once_def)
  with webpack_require_grows[OF assms(6)] have "once rt3'" by (simp add: grows_def)
  then have 3: "distinct (executed rt3')" "set (executed rt3') \<subseteq> dom (installedModules rt3')"
    by (simp_all add: once_def)
  from 1 2 3 show ?thesis by (simp add: fresh_runtime_def)
qed

lemma sample_load:
  "snd (webpack_require 10 0 sample_factories ''./a'' fresh_runtime) = Returned 212"
  "executed (fst (webpack_require 10 0 sample_factories ''./a'' fresh_runtime)) = [''./a'', ''./b'']"
  "map_option mod_exports
     (installedModules (fst (webpack_require 10 0 sample_factories ''./a'' fresh_runtime)) ''./b'') =
   Some 101"
  by code_simp+

theorem loader_runs_each_factory_at_most_once_witness:
  "webpack_require 10 0 sample_factories ''./a'' fresh_runtime =
     (fst (webpack_require 10 0 sample_factories ''./a'' fresh_runtime), Returned 212) \<and>
   executed (fst (webpack_require 10 0 sample_factories ''./a'' fresh_runtime)) = [''./a'', ''./b''] \<and>
   webpack_require 5 0 sample_factories ''./b''
       (fst (webpack_require 10 0 sample_factories ''./a'' fresh_runtime)) =
     (fst (webpack_require 10 0 sample_factories ''./a'' fresh_runtime), Returned 101) \<and>
   (\<exists>m'. installedModules (fst (webpack_require 10 0 sample_factories ''./a'' fresh_runtime)) ''./a'' =
            Some m' \<and> mod_l m' \<and> mod_exports m' = 212) \<and>
   ''./a'' \<in> set (executed (fst (webpack_require 10 0 sample_factories ''./a'' fresh_runtime))) \<and>
   distinct (executed (fst (webpack_require 10 0 sample_factories ''./a'' fresh_runtime)))"
proof -
  let ?rt = "fst (webpack_require 10 0 sample_factories ''./a'' fresh_runtime)"
  have run: "webpack_require 10 0 sample_factories ''./a'' fresh_runtime = (?rt, Returned 212)"
    using sample_load(1) by (metis prod.collapse)
  from sample_load(3) obtain m where
    h1: "installedModules ?rt ''./b'' = Some m" and m: "mod_exports m = 101"
    by auto
  have h2: "installedModules (fresh_runtime :: nat runtime) ''./a'' = None"
    by (simp add: fresh_runtime_def)
  have h4: "distinct (executed (fresh_runtime :: nat runtime))"
    and h5: "set (executed (fresh_runtime :: nat runtime)) \<subseteq> dom (installedModules (fresh_runtime :: nat runtime))"
    by (simp_all add: fresh_runtime_def)
  have five: "Suc 4 = 5" by simp
  note r = loader_runs_each_factory_at_most_once[OF h1 h2 run h4 h5 run, of 4, unfolded m five]
  from r have r1: "webpack_require 5 0 sample_factories ''./b'' ?rt = (?rt, Returned 101)"
    and r2: "\<exists>m'. installedModules ?rt ''./a'' = Some m' \<and> mod_l m' \<and> mod_exports m' = 212"
    and r3: "''./a'' \<in> set (executed ?rt)"
    and r4: "distinct (executed ?rt)"
    by blast+
  show ?thesis
    by (intro conjI run sample_load(2) r1 r2 r3 r4)
qed

end
